theory Spec2Isabelle
  imports Complex_Main
begin

section \<open>Decoded JSON values and the Python operations the client applies to them\<close>

text \<open>
  \<^verbatim>\<open>response.json()\<close> yields an arbitrary decoded JSON document: \<^verbatim>\<open>None\<close>, a
  \<^verbatim>\<open>bool\<close>, an unbounded \<^verbatim>\<open>int\<close>, a \<^verbatim>\<open>float\<close>, a \<^verbatim>\<open>str\<close>, a \<^verbatim>\<open>list\<close> or a
  \<^verbatim>\<open>dict\<close> with string keys. A finite float is represented by its exact rational value; the
  decoder also accepts the literals NaN, Infinity and -Infinity. A dict is an association
  list read with \<open>map_of\<close>. A \<open>char\<close> stands for one code point below 256; strings
  holding higher code points are outside this development.
\<close>

datatype pyfloat = Finite rat | PosInf | NegInf | NaN

datatype json =
    JNull
  | JBool bool
  | JInt int
  | JFloat pyfloat
  | JStr string
  | JArr "json list"
  | JObj "(string \<times> json) list"

text \<open>
  Modelled from the spec: the module \<^verbatim>\<open>exceptions\<close>, which declares \<^verbatim>\<open>BotNotFound\<close>, is
  not among the sources. \<open>BotNotFound\<close> is the client's own exception and carries the
  message it is raised with. The other errors are raised by the interpreter: a missing dict
  key, an operation the value's type does not support, a missing method, a literal
  \<^verbatim>\<open>int()\<close> rejects, and \<^verbatim>\<open>int()\<close> of an infinite float.
\<close>

datatype error =
    BotNotFound json
  | KeyError string
  | TypeError
  | AttributeError
  | ValueError
  | OverflowError

definition and_then :: "error + 'a \<Rightarrow> ('a \<Rightarrow> error + 'b) \<Rightarrow> error + 'b" where
  "and_then r f = (case r of Inl e \<Rightarrow> Inl e | Inr v \<Rightarrow> f v)"

text \<open>Truth value of a decoded value, as \<^verbatim>\<open>bool(x)\<close>, \<^verbatim>\<open>if x\<close> and \<^verbatim>\<open>not x\<close> take it.\<close>

fun py_bool :: "json \<Rightarrow> bool" where
  "py_bool JNull = False"
| "py_bool (JBool b) = b"
| "py_bool (JInt i) = (i \<noteq> 0)"
| "py_bool (JFloat (Finite q)) = (q \<noteq> 0)"
| "py_bool (JFloat _) = True"
| "py_bool (JStr s) = (s \<noteq> [])"
| "py_bool (JArr xs) = (xs \<noteq> [])"
| "py_bool (JObj kvs) = (kvs \<noteq> [])"

text \<open>\<^verbatim>\<open>x[key]\<close> with a string key: only a dict supports it.\<close>

fun py_getitem :: "json \<Rightarrow> string \<Rightarrow> error + json" where
  "py_getitem (JObj kvs) k = (case map_of kvs k of None \<Rightarrow> Inl (KeyError k) | Some v \<Rightarrow> Inr v)"
| "py_getitem _ k = Inl TypeError"

fun starts_with :: "string \<Rightarrow> string \<Rightarrow> bool" where
  "starts_with [] s = True"
| "starts_with (p # ps) [] = False"
| "starts_with (p # ps) (c # cs) = (p = c \<and> starts_with ps cs)"

fun has_substring :: "string \<Rightarrow> string \<Rightarrow> bool" where
  "has_substring p [] = (p = [])"
| "has_substring p (c # cs) = (starts_with p (c # cs) \<or> has_substring p cs)"

text \<open>
  \<^verbatim>\<open>key in x\<close> for a string key: key membership for a dict, element membership for a
  list, substring test for a str, and a TypeError for every other value.
\<close>

fun py_contains :: "string \<Rightarrow> json \<Rightarrow> error + bool" where
  "py_contains k (JObj kvs) = Inr (map_of kvs k \<noteq> None)"
| "py_contains k (JArr xs) = Inr (JStr k \<in> set xs)"
| "py_contains k (JStr s) = Inr (has_substring k s)"
| "py_contains k _ = Inl TypeError"

subsection \<open>\<^verbatim>\<open>str.split()\<close> and \<^verbatim>\<open>str.lstrip("#")\<close>\<close>

text \<open>
  Without arguments \<^verbatim>\<open>split\<close> cuts at runs of whitespace and yields no empty token.
  Below code point 256 the whitespace of \<^verbatim>\<open>str\<close> is 0x09..0x0D, 0x1C..0x1F, 0x20,
  0x85 and 0xA0.
\<close>

definition is_space :: "char \<Rightarrow> bool" where
  "is_space c = (c \<in> set [CHR 0x09, CHR 0x0A, CHR 0x0B, CHR 0x0C, CHR 0x0D,
                          CHR 0x1C, CHR 0x1D, CHR 0x1E, CHR 0x1F, CHR 0x20,
                          CHR 0x85, CHR 0xA0])"

text \<open>
  The scan keeps the token being read in \<open>cur\<close> (reversed); a whitespace character closes
  a non-empty token.
\<close>

fun split_scan :: "string \<Rightarrow> string \<Rightarrow> string list" where
  "split_scan cur [] = (if cur = [] then [] else [rev cur])"
| "split_scan cur (c # cs) =
     (if is_space c then (if cur = [] then split_scan [] cs else rev cur # split_scan [] cs)
      else split_scan (c # cur) cs)"

definition str_split :: "string \<Rightarrow> string list" where
  "str_split s = split_scan [] s"

text \<open>\<^verbatim>\<open>value.split()\<close> on a decoded value: only a str has the method.\<close>

fun py_split :: "json \<Rightarrow> error + string list" where
  "py_split (JStr s) = Inr (str_split s)"
| "py_split _ = Inl AttributeError"

text \<open>\<^verbatim>\<open>word.lstrip("#")\<close> removes every leading character that is in the set \<^verbatim>\<open>"#"\<close>.\<close>

definition lstrip_hash :: "string \<Rightarrow> string" where
  "lstrip_hash w = dropWhile (\<lambda>c. c = CHR ''#'') w"

subsection \<open>\<^verbatim>\<open>int(x)\<close>\<close>

text \<open>
  For a str, \<^verbatim>\<open>int\<close> first rewrites a string that is not pure ASCII (a whitespace code
  point from 127 up becomes a blank; any other one, no code point below 256 being a
  decimal digit there, becomes \<^verbatim>\<open>?\<close>), then reads base 10: blanks of the C locale, an
  optional sign, digits with single underscores between them, blanks, end of string.
  The limit an interpreter may put on the number of digits of such a literal
  (\<^verbatim>\<open>sys.set_int_max_str_digits\<close>) is a setting of the interpreter and is left out.
\<close>

definition is_ascii :: "char \<Rightarrow> bool" where
  "is_ascii c = (\<not> digit7 c)"

definition is_c_space :: "char \<Rightarrow> bool" where
  "is_c_space c = (c \<in> set [CHR 0x09, CHR 0x0A, CHR 0x0B, CHR 0x0C, CHR 0x0D, CHR 0x20])"

definition to_ascii_char :: "char \<Rightarrow> char" where
  "to_ascii_char c =
     (if is_ascii c \<and> c \<noteq> CHR 0x7F then c
      else if is_space c then CHR 0x20
      else CHR ''?'')"

definition to_ascii :: "string \<Rightarrow> string" where
  "to_ascii s = (if list_all is_ascii s then s else map to_ascii_char s)"

definition digit_val :: "char \<Rightarrow> nat option" where
  "digit_val c = map_of (zip ''0123456789'' [0, 1, 2, 3, 4, 5, 6, 7, 8, 9]) c"

text \<open>
  \<open>digits_run acc s\<close> reads the rest of a digit run whose value so far is \<open>acc\<close> and
  returns the value with the unread rest; an underscore must be followed by a digit.
\<close>

fun digits_run :: "nat \<Rightarrow> string \<Rightarrow> (nat \<times> string) option" where
  "digits_run acc [] = Some (acc, [])"
| "digits_run acc (c # cs) =
     (case digit_val c of
        Some d \<Rightarrow> digits_run (acc * 10 + d) cs
      | None \<Rightarrow>
          if c = CHR ''_'' then
            (case cs of
               [] \<Rightarrow> None
             | c' # cs' \<Rightarrow> (case digit_val c' of None \<Rightarrow> None | Some d \<Rightarrow> digits_run acc cs))
          else Some (acc, c # cs))"

definition read_digits :: "string \<Rightarrow> (nat \<times> string) option" where
  "read_digits s =
     (case s of
        [] \<Rightarrow> None
      | c # cs \<Rightarrow> (case digit_val c of None \<Rightarrow> None | Some d \<Rightarrow> digits_run 0 s))"

definition read_sign :: "string \<Rightarrow> int \<times> string" where
  "read_sign s =
     (case s of
        [] \<Rightarrow> (1, [])
      | c # cs \<Rightarrow> if c = CHR ''+'' then (1, cs) else if c = CHR ''-'' then (- 1, cs) else (1, s))"

definition int_of_str :: "string \<Rightarrow> int option" where
  "int_of_str s =
     (let (sign, body) = read_sign (dropWhile is_c_space (to_ascii s)) in
      case read_digits body of
        None \<Rightarrow> None
      | Some (n, rest) \<Rightarrow> if dropWhile is_c_space rest = [] then Some (sign * int n) else None)"

text \<open>A float is truncated towards zero.\<close>

definition trunc_rat :: "rat \<Rightarrow> int" where
  "trunc_rat q = (if 0 \<le> q then \<lfloor>q\<rfloor> else \<lceil>q\<rceil>)"

fun py_int :: "json \<Rightarrow> error + int" where
  "py_int (JInt i) = Inr i"
| "py_int (JBool b) = Inr (if b then 1 else 0)"
| "py_int (JFloat (Finite q)) = Inr (trunc_rat q)"
| "py_int (JFloat NaN) = Inl ValueError"
| "py_int (JFloat _) = Inl OverflowError"
| "py_int (JStr s) = (case int_of_str s of None \<Rightarrow> Inl ValueError | Some i \<Rightarrow> Inr i)"
| "py_int _ = Inl TypeError"

subsection \<open>\<^verbatim>\<open>str(x)\<close>, as an f-string applies it\<close>

fun nat_digits :: "nat \<Rightarrow> string" where
  "nat_digits n =
     (if n < 10 then [''0123456789'' ! n]
      else nat_digits (n div 10) @ [''0123456789'' ! (n mod 10)])"

declare nat_digits.simps [simp del]

definition int_str :: "int \<Rightarrow> string" where
  "int_str i = (if i < 0 then CHR ''-'' # nat_digits (nat (- i)) else nat_digits (nat i))"

text \<open>
  The text of a float, a list or a dict is the interpreter's \<^verbatim>\<open>repr\<close>, which is not
  unfolded here: \<open>repr_of\<close> stands for it.
\<close>

fun py_str :: "(json \<Rightarrow> string) \<Rightarrow> json \<Rightarrow> string" where
  "py_str repr_of JNull = ''None''"
| "py_str repr_of (JBool b) = (if b then ''True'' else ''False'')"
| "py_str repr_of (JInt i) = int_str i"
| "py_str repr_of (JStr s) = s"
| "py_str repr_of v = repr_of v"

section \<open>The data model\<close>

text \<open>
  The dataclass \<^verbatim>\<open>Bot\<close> checks no field type: a field the client does not coerce holds
  the decoded value as it arrived. The field \<^verbatim>\<open>id\<close> is \<open>id_val\<close> here.
\<close>

record Bot =
  id_val :: json
  name :: json
  username :: json
  description :: json
  warn :: json
  msg :: json
  category :: json
  groups :: bool
  inline :: bool
  developer_id :: int
  stars :: json
  votes :: json
  vote :: json
  tags :: "string list"
  languages :: "string list"
  offline :: bool
  photo :: json
  photo_url :: "string option"

datatype Category =
    MUSIC | UTILITY | GAMES | STATISTICS | POLL | TELEGRAM
  | FILES | FUN | INFO | NOTIFICATION | MANAGING | MEDIA

fun Category_value :: "Category \<Rightarrow> string" where
  "Category_value MUSIC = ''music''"
| "Category_value UTILITY = ''utility''"
| "Category_value GAMES = ''games''"
| "Category_value STATISTICS = ''stats''"
| "Category_value POLL = ''poll''"
| "Category_value TELEGRAM = ''Telegram''"
| "Category_value FILES = ''file''"
| "Category_value FUN = ''entertainment''"
| "Category_value INFO = ''info''"
| "Category_value NOTIFICATION = ''notifications''"
| "Category_value MANAGING = ''manager''"
| "Category_value MEDIA = ''media''"

text \<open>The argument of \<^verbatim>\<open>category_search\<close>: \<^verbatim>\<open>Union[enums.Category, str]\<close>.\<close>

datatype category_arg = Member Category | Raw string

text \<open>
  The configuration a \<^verbatim>\<open>Client\<close> keeps that the modelled code reads. The proxy and
  timeout settings only reach the HTTP transport, which is not part of the model.
\<close>

record Client =
  api_base_url :: string
  photo_base_url :: string

definition API_BASE_URL :: string where
  "API_BASE_URL = ''https://api.botsarchive.com''"

definition PHOTO_BASE_URL :: string where
  "PHOTO_BASE_URL = ''https://www.botsarchive.com/img''"

definition default_client :: Client where
  "default_client = \<lparr>api_base_url = API_BASE_URL, photo_base_url = PHOTO_BASE_URL\<rparr>"

text \<open>The value \<^verbatim>\<open>get_user_vote\<close> returns: an int, \<^verbatim>\<open>False\<close> or \<^verbatim>\<open>None\<close>.\<close>

datatype vote_result = VInt int | VFalse | VNone

section \<open>The client's operations, from the decoded response on\<close>

text \<open>
  Each operation below is the method's body after \<^verbatim>\<open>data = response.json()\<close>; \<open>data\<close>
  is the decoded body. Keyword arguments are evaluated in the order they are written, so
  the first lookup or coercion that raises decides the exception.

  The three methods build a \<^verbatim>\<open>Bot\<close> from the same seventeen keyword arguments in the
  same order; \<open>bot_fields\<close> is that common part, over the lookup \<open>get\<close> that the method
  uses (\<^verbatim>\<open>data["result"][k]\<close> or \<^verbatim>\<open>info[k]\<close>). It leaves \<open>photo_url\<close> at the
  dataclass default \<^verbatim>\<open>None\<close>.
\<close>

text \<open>\<^verbatim>\<open>[word.lstrip("#") for word in value.split()]\<close>\<close>

definition tags_arg :: "json \<Rightarrow> error + string list" where
  "tags_arg v = and_then (py_split v) (\<lambda>ws. Inr (map lstrip_hash ws))"

definition bot_fields :: "(string \<Rightarrow> error + json) \<Rightarrow> error + Bot" where
  "bot_fields get =
     and_then (get ''id'') (\<lambda>v_id.
     and_then (get ''name'') (\<lambda>v_name.
     and_then (get ''username'') (\<lambda>v_username.
     and_then (get ''description'') (\<lambda>v_description.
     and_then (get ''warn'') (\<lambda>v_warn.
     and_then (get ''msg'') (\<lambda>v_msg.
     and_then (get ''category'') (\<lambda>v_category.
     and_then (get ''groups'') (\<lambda>v_groups.
     and_then (get ''inline'') (\<lambda>v_inline.
     and_then (and_then (get ''developer_id'') py_int) (\<lambda>v_developer_id.
     and_then (get ''stars'') (\<lambda>v_stars.
     and_then (get ''votes'') (\<lambda>v_votes.
     and_then (get ''vote'') (\<lambda>v_vote.
     and_then (and_then (get ''tags'') tags_arg) (\<lambda>v_tags.
     and_then (and_then (get ''languages'') py_split) (\<lambda>v_languages.
     and_then (and_then (get ''offline'') py_int) (\<lambda>v_offline.
     and_then (get ''photo'') (\<lambda>v_photo.
     Inr \<lparr>id_val = v_id, name = v_name, username = v_username,
          description = v_description, warn = v_warn, msg = v_msg,
          category = v_category, groups = py_bool v_groups, inline = py_bool v_inline,
          developer_id = v_developer_id, stars = v_stars, votes = v_votes, vote = v_vote,
          tags = v_tags, languages = v_languages,
          offline = (v_offline \<noteq> 0), photo = v_photo,
          photo_url = None\<rparr>)))))))))))))))))"

text \<open>
  The last keyword argument of \<^verbatim>\<open>get_bot_id\<close> and \<^verbatim>\<open>search\<close>:
  \<^verbatim>\<open>f"{self.photo_base_url}/{id}.jpg" if photo else None\<close>.
\<close>

definition photo_url_arg ::
  "(json \<Rightarrow> string) \<Rightarrow> Client \<Rightarrow> (string \<Rightarrow> error + json) \<Rightarrow> error + string option" where
  "photo_url_arg repr_of c get =
     and_then (get ''photo'') (\<lambda>p.
       if py_bool p
       then and_then (get ''id'') (\<lambda>i.
              Inr (Some (photo_base_url c @ ''/'' @ py_str repr_of i @ ''.jpg'')))
       else Inr None)"

text \<open>\<^verbatim>\<open>"message" in data and data["message"] == "bot not found"\<close>\<close>

definition is_bot_not_found :: "json \<Rightarrow> error + bool" where
  "is_bot_not_found data =
     and_then (py_contains ''message'' data) (\<lambda>present.
       if present
       then and_then (py_getitem data ''message'') (\<lambda>m. Inr (m = JStr ''bot not found''))
       else Inr False)"

text \<open>\<^verbatim>\<open>raise exceptions.BotNotFound(data["message"])\<close>\<close>

definition raise_bot_not_found :: "json \<Rightarrow> error + 'a" where
  "raise_bot_not_found data = and_then (py_getitem data ''message'') (\<lambda>m. Inl (BotNotFound m))"

definition result_field :: "json \<Rightarrow> string \<Rightarrow> error + json" where
  "result_field data k = and_then (py_getitem data ''result'') (\<lambda>r. py_getitem r k)"

text \<open>
  The constructor call of \<^verbatim>\<open>get_bot_id\<close> and of \<^verbatim>\<open>search\<close>: the seventeen common
  arguments, then \<^verbatim>\<open>photo_url\<close>.
\<close>

definition bot_with_photo_url ::
  "(json \<Rightarrow> string) \<Rightarrow> Client \<Rightarrow> (string \<Rightarrow> error + json) \<Rightarrow> error + Bot" where
  "bot_with_photo_url repr_of c get =
     and_then (bot_fields get) (\<lambda>b.
     and_then (photo_url_arg repr_of c get) (\<lambda>u.
     Inr (b\<lparr>photo_url := u\<rparr>)))"

definition get_bot_id :: "(json \<Rightarrow> string) \<Rightarrow> Client \<Rightarrow> json \<Rightarrow> error + Bot" where
  "get_bot_id repr_of c data =
     and_then (is_bot_not_found data) (\<lambda>nf.
       if nf then raise_bot_not_found data
       else bot_with_photo_url repr_of c (result_field data))"

text \<open>The \<^verbatim>\<open>if "result" in data: ... elif "vote" in data: ... else: ...\<close> of \<^verbatim>\<open>get_user_vote\<close>.\<close>

definition vote_of :: "json \<Rightarrow> error + vote_result" where
  "vote_of data =
     and_then (py_contains ''result'' data) (\<lambda>has_result.
       if has_result
       then and_then (and_then (py_getitem data ''result'') py_int) (\<lambda>n. Inr (VInt n))
       else
         and_then (py_contains ''vote'' data) (\<lambda>has_vote.
           if has_vote then Inr VFalse else Inr VNone))"

definition get_user_vote :: "json \<Rightarrow> error + vote_result" where
  "get_user_vote data =
     and_then (is_bot_not_found data) (\<lambda>nf.
       if nf then raise_bot_not_found data else vote_of data)"

text \<open>
  \<^verbatim>\<open>for info in x\<close>: the elements of a list, the keys of a dict, the one-character
  strings of a str; no other decoded value can be iterated.
\<close>

fun py_iter :: "json \<Rightarrow> error + json list" where
  "py_iter (JArr xs) = Inr xs"
| "py_iter (JObj kvs) = Inr (map (\<lambda>kv. JStr (fst kv)) kvs)"
| "py_iter (JStr s) = Inr (map (\<lambda>ch. JStr [ch]) s)"
| "py_iter _ = Inl TypeError"

text \<open>The loop bodies; \<open>acc\<close> is the list \<^verbatim>\<open>result\<close> built so far.\<close>

fun search_loop ::
  "(json \<Rightarrow> string) \<Rightarrow> Client \<Rightarrow> json list \<Rightarrow> Bot list \<Rightarrow> error + Bot list" where
  "search_loop repr_of c [] acc = Inr acc"
| "search_loop repr_of c (info # rest) acc =
     and_then (bot_with_photo_url repr_of c (py_getitem info)) (\<lambda>bot.
     search_loop repr_of c rest (acc @ [bot]))"

definition search :: "(json \<Rightarrow> string) \<Rightarrow> Client \<Rightarrow> json \<Rightarrow> error + Bot list option" where
  "search repr_of c data =
     and_then (py_getitem data ''result'') (\<lambda>r.
       if \<not> py_bool r then Inr None
       else
         and_then (py_iter r) (\<lambda>infos.
         and_then (search_loop repr_of c infos []) (\<lambda>bots. Inr (Some bots))))"

fun category_loop :: "json list \<Rightarrow> Bot list \<Rightarrow> error + Bot list" where
  "category_loop [] acc = Inr acc"
| "category_loop (info # rest) acc =
     and_then (bot_fields (py_getitem info)) (\<lambda>bot. category_loop rest (acc @ [bot]))"

definition category_search :: "json \<Rightarrow> error + Bot list option" where
  "category_search data =
     and_then (py_getitem data ''result'') (\<lambda>r.
       if \<not> py_bool r then Inr None
       else
         and_then (py_iter r) (\<lambda>infos.
         and_then (category_loop infos []) (\<lambda>bots. Inr (Some bots))))"

text \<open>The request \<^verbatim>\<open>category_search\<close> sends: the URL and the query parameters.\<close>

definition category_param :: "category_arg \<Rightarrow> string" where
  "category_param a = (case a of Member m \<Rightarrow> Category_value m | Raw s \<Rightarrow> s)"

definition category_search_request :: "Client \<Rightarrow> category_arg \<Rightarrow> string \<times> (string \<times> string) list" where
  "category_search_request c a =
     (api_base_url c @ ''/getCategory.php'', [(''category'', category_param a)])"

section \<open>Predicates used in the statements\<close>

text \<open>
  The statements below speak of the keys of a decoded body, so they range over bodies that
  are JSON objects, \<open>JObj kvs\<close>, and read a key with \<open>map_of kvs\<close>.
\<close>

text \<open>
  The rule for \<open>photo_url\<close>: the bot \<open>b\<close> built from the object \<open>info\<close> has the URL
  \<^verbatim>\<open>{photo_base_url}/{id}.jpg\<close> when the object's \<^verbatim>\<open>photo\<close> is truthy and has none otherwise.
\<close>

definition photo_url_rule :: "(json \<Rightarrow> string) \<Rightarrow> Client \<Rightarrow> json \<Rightarrow> Bot \<Rightarrow> bool" where
  "photo_url_rule repr_of c info b =
     (case (py_getitem info ''photo'', py_getitem info ''id'') of
        (Inr p, Inr i) \<Rightarrow>
          photo_url b =
            (if py_bool p then Some (photo_base_url c @ ''/'' @ py_str repr_of i @ ''.jpg'')
             else None)
      | _ \<Rightarrow> False)"

text \<open>Removing one leading \<^verbatim>\<open>#\<close> from a token, and a token that does not begin with one.\<close>

definition strip_one_hash :: "string \<Rightarrow> string" where
  "strip_one_hash w = (case w of [] \<Rightarrow> [] | ch # rest \<Rightarrow> if ch = CHR ''#'' then rest else w)"

definition no_leading_hash :: "string \<Rightarrow> bool" where
  "no_leading_hash w = (case w of [] \<Rightarrow> True | ch # rest \<Rightarrow> ch \<noteq> CHR ''#'')"

text \<open>
  The rule for \<open>tags\<close>: the bot \<open>b\<close> built from the object \<open>info\<close> has the tokens of the
  object's \<^verbatim>\<open>tags\<close> string, each without its leading \<^verbatim>\<open>#\<close> characters.
\<close>

definition tags_rule :: "json \<Rightarrow> Bot \<Rightarrow> bool" where
  "tags_rule info b =
     (case py_getitem info ''tags'' of
        Inr (JStr s) \<Rightarrow> tags b = map lstrip_hash (str_split s)
      | _ \<Rightarrow> False)"

text \<open>The keys a bot object is read at, in the order of the constructor's arguments.\<close>

definition bot_keys :: "string list" where
  "bot_keys =
     [''id'', ''name'', ''username'', ''description'', ''warn'', ''msg'', ''category'',
      ''groups'', ''inline'', ''developer_id'', ''stars'', ''votes'', ''vote'', ''tags'',
      ''languages'', ''offline'', ''photo'']"

text \<open>The errors of the interpreter that the mapping of a bot object can raise.\<close>

definition builtin_error :: "error \<Rightarrow> bool" where
  "builtin_error e =
     (case e of
        BotNotFound m \<Rightarrow> False
      | KeyError k \<Rightarrow> k \<in> set bot_keys
      | _ \<Rightarrow> True)"

text \<open>
  A string of decimal digits with an optional sign, and the values of \<^verbatim>\<open>offline\<close> that are
  an integer or such a string.
\<close>

definition is_digit :: "char \<Rightarrow> bool" where
  "is_digit ch = (ch \<in> set ''0123456789'')"

definition signed_digits :: "string \<Rightarrow> bool" where
  "signed_digits s =
     (case s of
        [] \<Rightarrow> False
      | ch # rest \<Rightarrow>
          if ch = CHR ''+'' \<or> ch = CHR ''-'' then rest \<noteq> [] \<and> list_all is_digit rest
          else list_all is_digit s)"

definition integer_or_signed_digits :: "json \<Rightarrow> bool" where
  "integer_or_signed_digits v =
     (case v of JInt i \<Rightarrow> True | JStr s \<Rightarrow> signed_digits s | _ \<Rightarrow> False)"

subsection \<open>Example bodies\<close>

text \<open>
  The bot object behind the example of \<^verbatim>\<open>get_bot_id\<close>'s docstring, with \<^verbatim>\<open>offline\<close>,
  \<^verbatim>\<open>groups\<close> and \<^verbatim>\<open>inline\<close> as the service sends them, and the same object with one key
  set to another value.
\<close>

definition vote_fields :: "(string \<times> json) list" where
  "vote_fields =
     [(''id'', JInt 1), (''name'', JStr ''Votebot''), (''username'', JStr ''@vote''),
      (''description'', JStr ''Votebot creates anonymous and public polls.''),
      (''warn'', JNull), (''msg'', JStr ''http://t.me/BotsArchive/79''),
      (''category'', JArr [JStr ''poll'']), (''groups'', JInt 0), (''inline'', JInt 1),
      (''developer_id'', JInt 0), (''stars'', JInt 770), (''votes'', JInt 189),
      (''vote'', JFloat (Finite (41 / 10))), (''tags'', JStr ''#vote #poll #like''),
      (''languages'', JStr ''English Spanish''), (''offline'', JStr ''0''),
      (''photo'', JBool True)]"

definition vote_bot :: Bot where
  "vote_bot =
     \<lparr>id_val = JInt 1, name = JStr ''Votebot'', username = JStr ''@vote'',
      description = JStr ''Votebot creates anonymous and public polls.'',
      warn = JNull, msg = JStr ''http://t.me/BotsArchive/79'',
      category = JArr [JStr ''poll''], groups = False, inline = True,
      developer_id = 0, stars = JInt 770, votes = JInt 189,
      vote = JFloat (Finite (41 / 10)), tags = [''vote'', ''poll'', ''like''],
      languages = [''English'', ''Spanish''], offline = False, photo = JBool True,
      photo_url = Some ''https://www.botsarchive.com/img/1.jpg''\<rparr>"

fun set_key :: "string \<Rightarrow> json \<Rightarrow> (string \<times> json) list \<Rightarrow> (string \<times> json) list" where
  "set_key k v [] = [(k, v)]"
| "set_key k v ((k', v') # kvs) = (if k' = k then (k, v) # kvs else (k', v') # set_key k v kvs)"

fun drop_key :: "string \<Rightarrow> (string \<times> json) list \<Rightarrow> (string \<times> json) list" where
  "drop_key k [] = []"
| "drop_key k ((k', v') # kvs) = (if k' = k then drop_key k kvs else (k', v') # drop_key k kvs)"

definition result_body :: "json \<Rightarrow> json" where
  "result_body r = JObj [(''result'', r)]"

definition no_repr :: "json \<Rightarrow> string" where
  "no_repr v = []"

section \<open>Sequencing of raising steps, and the mapping of one bot object\<close>

lemma and_then_Inl [simp]: "and_then (Inl e) f = Inl e"
  by (simp add: and_then_def)

lemma and_then_Inr [simp]: "and_then (Inr v) f = f v"
  by (simp add: and_then_def)

lemma and_then_eq_Inr: "and_then r f = Inr y \<longleftrightarrow> (\<exists>v. r = Inr v \<and> f v = Inr y)"
  by (cases r) simp_all

lemma and_then_InrE:
  assumes "and_then r f = Inr y"
  obtains v where "r = Inr v" and "f v = Inr y"
  using assms by (auto simp: and_then_eq_Inr)

lemma and_then_InlE:
  assumes "and_then r f = Inl e"
  obtains "r = Inl e" | v where "r = Inr v" and "f v = Inl e"
  using assms by (cases r) simp_all

lemma bot_fields_InrD:
  assumes "bot_fields get = Inr b"
  shows "\<exists>r_developer_id r_tags r_languages r_offline v_offline.
        get ''id'' = Inr (id_val b) \<and> get ''name'' = Inr (name b) \<and>
        get ''username'' = Inr (username b) \<and>
        get ''description'' = Inr (description b) \<and> get ''warn'' = Inr (warn b) \<and>
        get ''msg'' = Inr (msg b) \<and> get ''category'' = Inr (category b) \<and>
        (\<exists>v. get ''groups'' = Inr v \<and> groups b = py_bool v) \<and>
        (\<exists>v. get ''inline'' = Inr v \<and> inline b = py_bool v) \<and>
        get ''developer_id'' = Inr r_developer_id \<and> py_int r_developer_id = Inr (developer_id b) \<and>
        get ''stars'' = Inr (stars b) \<and> get ''votes'' = Inr (votes b) \<and>
        get ''vote'' = Inr (vote b) \<and>
        get ''tags'' = Inr r_tags \<and> tags_arg r_tags = Inr (tags b) \<and>
        get ''languages'' = Inr r_languages \<and> py_split r_languages = Inr (languages b) \<and>
        get ''offline'' = Inr r_offline \<and> py_int r_offline = Inr v_offline \<and>
        offline b = (v_offline \<noteq> 0) \<and>
        get ''photo'' = Inr (photo b) \<and> photo_url b = None"
  using assms unfolding bot_fields_def
  by (elim and_then_InrE) auto

lemma bot_with_photo_url_InrD:
  assumes "bot_with_photo_url repr_of c get = Inr b"
  shows "\<exists>b0 p i. bot_fields get = Inr b0 \<and> b = b0\<lparr>photo_url := photo_url b\<rparr> \<and>
           get ''photo'' = Inr p \<and> get ''id'' = Inr i \<and>
           photo_url b =
             (if py_bool p then Some (photo_base_url c @ ''/'' @ py_str repr_of i @ ''.jpg'')
              else None)"
proof -
  from assms obtain b0 u where b0: "bot_fields get = Inr b0"
    and u: "photo_url_arg repr_of c get = Inr u" and b: "b = b0\<lparr>photo_url := u\<rparr>"
    unfolding bot_with_photo_url_def by (elim and_then_InrE) auto
  from bot_fields_InrD [OF b0] have p: "get ''photo'' = Inr (photo b0)"
    and i: "get ''id'' = Inr (id_val b0)" by auto
  from u have "u = (if py_bool (photo b0)
      then Some (photo_base_url c @ ''/'' @ py_str repr_of (id_val b0) @ ''.jpg'') else None)"
    by (simp add: photo_url_arg_def p i split: if_splits)
  with b0 b p i show ?thesis by auto
qed

lemma bot_with_photo_url_rule:
  assumes "bot_with_photo_url repr_of c (py_getitem info) = Inr b"
  shows "photo_url_rule repr_of c info b"
  using bot_with_photo_url_InrD [OF assms] by (auto simp: photo_url_rule_def)

lemma result_field_eq: "py_getitem data ''result'' = Inr r \<Longrightarrow> result_field data = py_getitem r"
  by (rule ext) (simp add: result_field_def)

lemma result_field_Inl: "py_getitem data ''result'' = Inl e \<Longrightarrow> result_field data k = Inl e"
  by (simp add: result_field_def)

lemma bot_fields_needs_id: "get ''id'' = Inl e \<Longrightarrow> bot_fields get = Inl e"
  by (simp add: bot_fields_def)

lemma bot_with_photo_url_needs_id: "get ''id'' = Inl e \<Longrightarrow> bot_with_photo_url repr_of c get = Inl e"
  by (simp add: bot_with_photo_url_def bot_fields_needs_id)

section \<open>The sentinel check on an object\<close>

lemma is_bot_not_found_JObj:
  "is_bot_not_found (JObj kvs) = Inr (map_of kvs ''message'' = Some (JStr ''bot not found''))"
  by (cases "map_of kvs ''message''") (simp_all add: is_bot_not_found_def)

lemma raise_bot_not_found_JObj:
  "map_of kvs ''message'' = Some m \<Longrightarrow> raise_bot_not_found (JObj kvs) = Inl (BotNotFound m)"
  by (simp add: raise_bot_not_found_def)

section \<open>The loops\<close>

lemma search_loop_Inr_iff:
  "search_loop repr_of c infos acc = Inr bs \<longleftrightarrow>
     (\<exists>new. bs = acc @ new \<and>
        list_all2 (\<lambda>info b. bot_with_photo_url repr_of c (py_getitem info) = Inr b) infos new)"
proof (induction infos arbitrary: acc)
  case Nil
  then show ?case by auto
next
  case (Cons info rest)
  show ?case
  proof (cases "bot_with_photo_url repr_of c (py_getitem info)")
    case (Inl e)
    then show ?thesis by (auto simp: list_all2_Cons1)
  next
    case (Inr b)
    then show ?thesis by (auto simp: Cons.IH list_all2_Cons1)
  qed
qed

lemma category_loop_Inr_iff:
  "category_loop infos acc = Inr bs \<longleftrightarrow>
     (\<exists>new. bs = acc @ new \<and>
        list_all2 (\<lambda>info b. bot_fields (py_getitem info) = Inr b) infos new)"
proof (induction infos arbitrary: acc)
  case Nil
  then show ?case by auto
next
  case (Cons info rest)
  show ?case
  proof (cases "bot_fields (py_getitem info)")
    case (Inl e)
    then show ?thesis by (auto simp: list_all2_Cons1)
  next
    case (Inr b)
    then show ?thesis by (auto simp: Cons.IH list_all2_Cons1)
  qed
qed

lemma py_iter_truthy_cases:
  assumes "py_bool r" and "py_iter r = Inr infos"
  shows "(r = JArr infos \<and> infos \<noteq> []) \<or> (\<exists>s rest. infos = JStr s # rest)"
  using assms by (cases r) (auto simp: neq_Nil_conv)

lemma search_loop_str_fails: "search_loop repr_of c (JStr s # rest) acc = Inl TypeError"
  by (simp add: bot_with_photo_url_needs_id)

lemma category_loop_str_fails: "category_loop (JStr s # rest) acc = Inl TypeError"
  by (simp add: bot_fields_needs_id)

lemma search_Some_iff:
  "search repr_of c data = Inr (Some bs) \<longleftrightarrow>
     (\<exists>infos. py_getitem data ''result'' = Inr (JArr infos) \<and> infos \<noteq> [] \<and>
        list_all2 (\<lambda>info b. bot_with_photo_url repr_of c (py_getitem info) = Inr b) infos bs)"
proof
  assume "search repr_of c data = Inr (Some bs)"
  then obtain r infos where r: "py_getitem data ''result'' = Inr r" and t: "py_bool r"
    and it: "py_iter r = Inr infos" and lp: "search_loop repr_of c infos [] = Inr bs"
    unfolding search_def by (elim and_then_InrE) (auto split: if_splits elim!: and_then_InrE)
  from py_iter_truthy_cases [OF t it] lp have "r = JArr infos \<and> infos \<noteq> []"
    by (auto simp: search_loop_str_fails simp del: search_loop.simps)
  with r lp show "\<exists>infos. py_getitem data ''result'' = Inr (JArr infos) \<and> infos \<noteq> [] \<and>
        list_all2 (\<lambda>info b. bot_with_photo_url repr_of c (py_getitem info) = Inr b) infos bs"
    by (auto simp: search_loop_Inr_iff)
next
  assume "\<exists>infos. py_getitem data ''result'' = Inr (JArr infos) \<and> infos \<noteq> [] \<and>
        list_all2 (\<lambda>info b. bot_with_photo_url repr_of c (py_getitem info) = Inr b) infos bs"
  then obtain infos where r: "py_getitem data ''result'' = Inr (JArr infos)" and ne: "infos \<noteq> []"
    and all: "list_all2 (\<lambda>info b. bot_with_photo_url repr_of c (py_getitem info) = Inr b) infos bs"
    by blast
  from all have "search_loop repr_of c infos [] = Inr bs"
    by (simp add: search_loop_Inr_iff)
  with r ne show "search repr_of c data = Inr (Some bs)"
    by (simp add: search_def)
qed

lemma category_search_Some_iff:
  "category_search data = Inr (Some bs) \<longleftrightarrow>
     (\<exists>infos. py_getitem data ''result'' = Inr (JArr infos) \<and> infos \<noteq> [] \<and>
        list_all2 (\<lambda>info b. bot_fields (py_getitem info) = Inr b) infos bs)"
proof
  assume "category_search data = Inr (Some bs)"
  then obtain r infos where r: "py_getitem data ''result'' = Inr r" and t: "py_bool r"
    and it: "py_iter r = Inr infos" and lp: "category_loop infos [] = Inr bs"
    unfolding category_search_def by (elim and_then_InrE) (auto split: if_splits elim!: and_then_InrE)
  from py_iter_truthy_cases [OF t it] lp have "r = JArr infos \<and> infos \<noteq> []"
    by (auto simp: category_loop_str_fails simp del: category_loop.simps)
  with r lp show "\<exists>infos. py_getitem data ''result'' = Inr (JArr infos) \<and> infos \<noteq> [] \<and>
        list_all2 (\<lambda>info b. bot_fields (py_getitem info) = Inr b) infos bs"
    by (auto simp: category_loop_Inr_iff)
next
  assume "\<exists>infos. py_getitem data ''result'' = Inr (JArr infos) \<and> infos \<noteq> [] \<and>
        list_all2 (\<lambda>info b. bot_fields (py_getitem info) = Inr b) infos bs"
  then obtain infos where r: "py_getitem data ''result'' = Inr (JArr infos)" and ne: "infos \<noteq> []"
    and all: "list_all2 (\<lambda>info b. bot_fields (py_getitem info) = Inr b) infos bs"
    by blast
  from all have "category_loop infos [] = Inr bs"
    by (simp add: category_loop_Inr_iff)
  with r ne show "category_search data = Inr (Some bs)"
    by (simp add: category_search_def)
qed

lemma search_None_iff:
  "py_getitem data ''result'' = Inr r \<Longrightarrow> search repr_of c data = Inr None \<longleftrightarrow> \<not> py_bool r"
  unfolding search_def by (auto elim!: and_then_InrE split: if_splits)

lemma category_search_None_iff:
  "py_getitem data ''result'' = Inr r \<Longrightarrow> category_search data = Inr None \<longleftrightarrow> \<not> py_bool r"
  unfolding category_search_def by (auto elim!: and_then_InrE split: if_splits)

section \<open>Splitting and stripping\<close>

lemma split_scan_concat:
  "concat (split_scan cur s) = rev cur @ filter (\<lambda>ch. \<not> is_space ch) s"
  by (induction s arbitrary: cur) auto

lemma split_scan_tokens:
  "\<forall>ch\<in>set cur. \<not> is_space ch \<Longrightarrow>
     \<forall>w\<in>set (split_scan cur s). w \<noteq> [] \<and> (\<forall>ch\<in>set w. \<not> is_space ch)"
proof (induction s arbitrary: cur)
  case Nil
  then show ?case by auto
next
  case (Cons c s)
  show ?case
  proof (cases "is_space c")
    case True
    have "\<forall>w\<in>set (split_scan [] s). w \<noteq> [] \<and> (\<forall>ch\<in>set w. \<not> is_space ch)"
      using Cons.IH [of "[]"] by simp
    with True Cons.prems show ?thesis by auto
  next
    case False
    with Cons.prems have "\<forall>ch\<in>set (c # cur). \<not> is_space ch" by simp
    from Cons.IH [OF this] False show ?thesis by simp
  qed
qed

lemma str_split_concat: "concat (str_split s) = filter (\<lambda>ch. \<not> is_space ch) s"
  by (simp add: str_split_def split_scan_concat)

lemma str_split_tokens:
  "w \<in> set (str_split s) \<Longrightarrow> w \<noteq> [] \<and> (\<forall>ch\<in>set w. \<not> is_space ch)"
  unfolding str_split_def using split_scan_tokens [of "[]" s] by simp

lemma lstrip_hash_no_leading_hash: "no_leading_hash (lstrip_hash w)"
  by (induction w) (auto simp: no_leading_hash_def lstrip_hash_def)

lemma lstrip_hash_suffix: "\<exists>n. w = replicate n (CHR ''#'') @ lstrip_hash w"
proof (induction w)
  case Nil
  then show ?case by (simp add: lstrip_hash_def)
next
  case (Cons ch w)
  show ?case
  proof (cases "ch = CHR ''#''")
    case True
    from Cons obtain n where "w = replicate n (CHR ''#'') @ lstrip_hash w" by blast
    then have "ch # w = replicate (Suc n) (CHR ''#'') @ lstrip_hash (ch # w)"
      using True by (simp add: lstrip_hash_def)
    then show ?thesis by blast
  next
    case False
    then have "ch # w = replicate 0 (CHR ''#'') @ lstrip_hash (ch # w)"
      by (simp add: lstrip_hash_def)
    then show ?thesis by blast
  qed
qed

lemma tags_arg_Inr:
  "tags_arg v = Inr ts \<Longrightarrow> \<exists>s. v = JStr s \<and> ts = map lstrip_hash (str_split s)"
  by (cases v) (auto simp: tags_arg_def)

lemma bot_fields_tags_rule:
  assumes "bot_fields (py_getitem info) = Inr b"
  shows "tags_rule info b \<and> list_all no_leading_hash (tags b)"
proof -
  from bot_fields_InrD [OF assms] obtain v where v: "py_getitem info ''tags'' = Inr v"
    and t: "tags_arg v = Inr (tags b)" by blast
  from tags_arg_Inr [OF t] obtain s where s: "v = JStr s"
    and ts: "tags b = map lstrip_hash (str_split s)" by blast
  from v s ts show ?thesis
    by (simp add: tags_rule_def list_all_iff lstrip_hash_no_leading_hash)
qed

lemma bot_with_photo_url_tags_rule:
  assumes "bot_with_photo_url repr_of c (py_getitem info) = Inr b"
  shows "tags_rule info b \<and> list_all no_leading_hash (tags b)"
proof -
  from bot_with_photo_url_InrD [OF assms] obtain b0 where b0: "bot_fields (py_getitem info) = Inr b0"
    and b: "b = b0\<lparr>photo_url := photo_url b\<rparr>" by blast
  from arg_cong [OF b, of tags] have "tags b = tags b0" by simp
  with bot_fields_tags_rule [OF b0] show ?thesis
    by (auto simp: tags_rule_def split: sum.splits json.splits)
qed

lemma get_bot_id_InrD:
  assumes "get_bot_id repr_of c data = Inr b"
  shows "\<exists>r. py_getitem data ''result'' = Inr r \<and> bot_with_photo_url repr_of c (py_getitem r) = Inr b"
proof -
  from assms have m: "bot_with_photo_url repr_of c (result_field data) = Inr b"
    unfolding get_bot_id_def raise_bot_not_found_def
    by (elim and_then_InrE) (auto split: if_splits elim!: and_then_InrE)
  show ?thesis
  proof (cases "py_getitem data ''result''")
    case (Inl e)
    with m show ?thesis
      by (simp add: bot_with_photo_url_needs_id result_field_Inl)
  next
    case (Inr r)
    with m show ?thesis
      by (simp add: result_field_eq)
  qed
qed

section \<open>Which errors the mapping raises\<close>

lemma py_getitem_JObj_Inl: "py_getitem (JObj kvs) k = Inl e \<Longrightarrow> e = KeyError k \<and> map_of kvs k = None"
  by (cases "map_of kvs k") simp_all

lemma py_getitem_JObj_Inr: "py_getitem (JObj kvs) k = Inr v \<longleftrightarrow> map_of kvs k = Some v"
  by (cases "map_of kvs k") simp_all

lemma py_int_Inl: "py_int v = Inl e \<Longrightarrow> e = ValueError \<or> e = OverflowError \<or> e = TypeError"
proof (cases v)
  case (JFloat f)
  assume "py_int v = Inl e"
  with JFloat show ?thesis by (cases f) auto
next
  case (JStr s)
  assume "py_int v = Inl e"
  with JStr show ?thesis by (cases "int_of_str s") auto
qed auto

lemma py_split_Inl: "py_split v = Inl e \<Longrightarrow> e = AttributeError \<and> (\<forall>s. v \<noteq> JStr s)"
  by (cases v) auto

lemma py_split_Inr: "py_split v = Inr ws \<Longrightarrow> \<exists>s. v = JStr s"
  by (cases v) auto

lemma tags_arg_Inl: "tags_arg v = Inl e \<Longrightarrow> e = AttributeError \<and> (\<forall>s. v \<noteq> JStr s)"
  by (cases v) (auto simp: tags_arg_def)

lemma bot_fields_Inl_cases:
  assumes "bot_fields get = Inl e"
  shows "(\<exists>k\<in>set bot_keys. get k = Inl e)
     \<or> (\<exists>v. (get ''developer_id'' = Inr v \<or> get ''offline'' = Inr v) \<and> py_int v = Inl e)
     \<or> (\<exists>v. get ''tags'' = Inr v \<and> tags_arg v = Inl e)
     \<or> (\<exists>v. get ''languages'' = Inr v \<and> py_split v = Inl e)"
  using assms unfolding bot_fields_def
  by (elim and_then_InlE) (auto simp: bot_keys_def)

lemma bot_fields_Inl_builtin:
  assumes "bot_fields (py_getitem (JObj kvs)) = Inl e"
  shows "builtin_error e"
proof -
  from bot_fields_Inl_cases [OF assms]
  consider k where "k \<in> set bot_keys" "py_getitem (JObj kvs) k = Inl e"
    | v where "py_int v = Inl e"
    | v where "tags_arg v = Inl e"
    | v where "py_split v = Inl e"
    by blast
  then show ?thesis
  proof cases
    case 1
    from py_getitem_JObj_Inl [OF 1(2)] 1(1) show ?thesis
      by (simp add: builtin_error_def)
  next
    case 2
    from py_int_Inl [OF 2] show ?thesis
      by (auto simp: builtin_error_def)
  next
    case 3
    from tags_arg_Inl [OF 3] show ?thesis
      by (simp add: builtin_error_def)
  next
    case 4
    from py_split_Inl [OF 4] show ?thesis
      by (simp add: builtin_error_def)
  qed
qed

lemma bot_fields_succeeds:
  assumes "\<forall>k\<in>set bot_keys. \<exists>v. get k = Inr v"
    and "\<forall>v. get ''developer_id'' = Inr v \<longrightarrow> \<not> isl (py_int v)"
    and "\<forall>v. get ''offline'' = Inr v \<longrightarrow> \<not> isl (py_int v)"
    and "\<forall>v. get ''tags'' = Inr v \<longrightarrow> (\<exists>s. v = JStr s)"
    and "\<forall>v. get ''languages'' = Inr v \<longrightarrow> (\<exists>s. v = JStr s)"
  shows "\<not> isl (bot_fields get)"
proof
  assume "isl (bot_fields get)"
  then obtain e where e: "bot_fields get = Inl e" by (cases "bot_fields get") auto
  from bot_fields_Inl_cases [OF e]
  consider k where "k \<in> set bot_keys" "get k = Inl e"
    | v where "get ''developer_id'' = Inr v \<or> get ''offline'' = Inr v" "py_int v = Inl e"
    | v where "get ''tags'' = Inr v" "tags_arg v = Inl e"
    | v where "get ''languages'' = Inr v" "py_split v = Inl e"
    by blast
  then show False
  proof cases
    case 1
    with assms(1) show False by auto
  next
    case 2
    with assms(2,3) show False by auto
  next
    case 3
    from tags_arg_Inl [OF 3(2)] assms(4) 3(1) show False by blast
  next
    case 4
    from py_split_Inl [OF 4(2)] assms(5) 4(1) show False by blast
  qed
qed

lemma bot_fields_fails_iff:
  "isl (bot_fields (py_getitem (JObj kvs))) \<longleftrightarrow>
     (\<exists>k\<in>set bot_keys. map_of kvs k = None)
     \<or> (\<exists>v. map_of kvs ''developer_id'' = Some v \<and> isl (py_int v))
     \<or> (\<exists>v. map_of kvs ''offline'' = Some v \<and> isl (py_int v))
     \<or> (\<exists>v. map_of kvs ''tags'' = Some v \<and> (\<forall>s. v \<noteq> JStr s))
     \<or> (\<exists>v. map_of kvs ''languages'' = Some v \<and> (\<forall>s. v \<noteq> JStr s))"
  (is "?L \<longleftrightarrow> ?R")
proof
  assume ?L
  show ?R
  proof (rule ccontr)
    assume "\<not> ?R"
    then have "\<not> isl (bot_fields (py_getitem (JObj kvs)))"
      by (intro bot_fields_succeeds) (auto simp: py_getitem_JObj_Inr simp del: py_getitem.simps)
    with \<open>?L\<close> show False by simp
  qed
next
  assume ?R
  show ?L
  proof (rule ccontr)
    assume "\<not> ?L"
    then obtain b where b: "bot_fields (py_getitem (JObj kvs)) = Inr b"
      by (cases "bot_fields (py_getitem (JObj kvs))") auto
    note d = bot_fields_InrD [OF b, unfolded py_getitem_JObj_Inr]
    from \<open>?R\<close> d show False
      by (auto simp: bot_keys_def dest: tags_arg_Inr py_split_Inr)
  qed
qed

lemma bot_with_photo_url_isl:
  "isl (bot_with_photo_url repr_of c get) \<longleftrightarrow> isl (bot_fields get)"
proof (cases "bot_fields get")
  case (Inl e)
  then show ?thesis by (simp add: bot_with_photo_url_def)
next
  case (Inr b)
  from bot_fields_InrD [OF Inr] have "get ''photo'' = Inr (photo b)" "get ''id'' = Inr (id_val b)"
    by blast+
  with Inr show ?thesis
    by (simp add: bot_with_photo_url_def photo_url_arg_def)
qed

section \<open>Signed digit strings are integer literals\<close>

lemma is_digit_digit_val: "is_digit ch \<Longrightarrow> \<exists>d. digit_val ch = Some d"
  by (auto simp: is_digit_def digit_val_def)

lemma is_digit_is_ascii: "is_digit ch \<Longrightarrow> is_ascii ch"
  by (auto simp: is_digit_def is_ascii_def)

lemma is_digit_not_c_space: "is_digit ch \<Longrightarrow> \<not> is_c_space ch"
  by (auto simp: is_digit_def is_c_space_def)

lemma is_digit_not_sign: "is_digit ch \<Longrightarrow> ch \<noteq> CHR ''+'' \<and> ch \<noteq> CHR ''-''"
  by (auto simp: is_digit_def)

lemma digits_run_all_digits:
  "list_all is_digit ds \<Longrightarrow> \<exists>n. digits_run acc ds = Some (n, [])"
proof (induction ds arbitrary: acc)
  case Nil
  then show ?case by simp
next
  case (Cons ch ds)
  then obtain d where "digit_val ch = Some d" using is_digit_digit_val by auto
  with Cons show ?case by simp
qed

lemma read_digits_all_digits:
  assumes "ds \<noteq> []" and "list_all is_digit ds"
  shows "\<exists>n. read_digits ds = Some (n, [])"
proof -
  from assms obtain ch rest where ds: "ds = ch # rest" by (cases ds) auto
  with assms(2) obtain d where "digit_val ch = Some d" using is_digit_digit_val by auto
  with ds digits_run_all_digits [OF assms(2), of 0] show ?thesis
    by (simp add: read_digits_def del: digits_run.simps)
qed

lemma int_of_str_body:
  assumes "read_sign (dropWhile is_c_space (to_ascii s)) = (sg, body)"
    and "read_digits body = Some (n, [])"
  shows "int_of_str s = Some (sg * int n)"
  using assms by (simp add: int_of_str_def)

lemma signed_digits_int_of_str:
  assumes "signed_digits s"
  shows "\<exists>i. int_of_str s = Some i"
proof -
  from assms obtain ch rest where s: "s = ch # rest"
    by (cases s) (auto simp: signed_digits_def)
  show ?thesis
  proof (cases "ch = CHR ''+'' \<or> ch = CHR ''-''")
    case True
    with assms s have rest: "rest \<noteq> []" "list_all is_digit rest"
      by (auto simp: signed_digits_def)
    from True have "is_ascii ch" "\<not> is_c_space ch"
      by (auto simp: is_ascii_def is_c_space_def)
    with rest(2) s have "dropWhile is_c_space (to_ascii s) = ch # rest"
      by (simp add: to_ascii_def list_all_iff is_digit_is_ascii)
    with True obtain sg where "read_sign (dropWhile is_c_space (to_ascii s)) = (sg, rest)"
      by (auto simp: read_sign_def)
    moreover from read_digits_all_digits [OF rest] obtain n where "read_digits rest = Some (n, [])"
      by blast
    ultimately show ?thesis using int_of_str_body by blast
  next
    case False
    with assms s have all: "list_all is_digit (ch # rest)"
      by (auto simp: signed_digits_def)
    then have "is_digit ch" by simp
    with all s have "dropWhile is_c_space (to_ascii s) = ch # rest"
      by (simp add: to_ascii_def list_all_iff is_digit_is_ascii is_digit_not_c_space)
    with False have "read_sign (dropWhile is_c_space (to_ascii s)) = (1, ch # rest)"
      by (simp add: read_sign_def)
    moreover from read_digits_all_digits [OF _ all] obtain n where
      "read_digits (ch # rest) = Some (n, [])" by blast
    ultimately show ?thesis using int_of_str_body by blast
  qed
qed

lemma integer_or_signed_digits_py_int:
  assumes "integer_or_signed_digits v"
  shows "\<exists>n. py_int v = Inr n"
proof (cases v)
  case (JStr s)
  with assms have "signed_digits s" by (simp add: integer_or_signed_digits_def)
  from signed_digits_int_of_str [OF this] JStr show ?thesis by auto
qed (use assms in \<open>auto simp: integer_or_signed_digits_def\<close>)

section \<open>A value that \<^verbatim>\<open>int\<close> rejects stops every path\<close>

lemma bot_fields_needs_offline:
  assumes "get ''offline'' = Inr v" and "isl (py_int v)"
  shows "isl (bot_fields get)"
proof (rule ccontr)
  assume "\<not> isl (bot_fields get)"
  then obtain b where "bot_fields get = Inr b" by (cases "bot_fields get") auto
  from bot_fields_InrD [OF this] assms show False by auto
qed

lemma search_needs_offline:
  assumes "py_getitem data ''result'' = Inr (JArr infos)" and "info \<in> set infos"
    and "py_getitem info ''offline'' = Inr v" and "isl (py_int v)"
  shows "isl (search repr_of c data)" and "isl (category_search data)"
proof -
  from assms(2) have ne: "infos \<noteq> []" by auto
  have f: "isl (bot_fields (py_getitem info))"
    by (rule bot_fields_needs_offline [of "py_getitem info" v, OF assms(3,4)])
  show "isl (search repr_of c data)"
  proof (rule ccontr)
    assume "\<not> isl (search repr_of c data)"
    then obtain res where res: "search repr_of c data = Inr res"
      by (cases "search repr_of c data") auto
    show False
    proof (cases res)
      case None
      with res search_None_iff [OF assms(1), of repr_of c] ne show False by simp
    next
      case (Some bs)
      with res assms(1) have "list_all2
          (\<lambda>info b. bot_with_photo_url repr_of c (py_getitem info) = Inr b) infos bs"
        by (auto simp: search_Some_iff)
      with assms(2) obtain b where "bot_with_photo_url repr_of c (py_getitem info) = Inr b"
        by (auto simp: list_all2_conv_all_nth in_set_conv_nth)
      then have "\<not> isl (bot_with_photo_url repr_of c (py_getitem info))" by simp
      with f show False by (simp add: bot_with_photo_url_isl)
    qed
  qed
  show "isl (category_search data)"
  proof (rule ccontr)
    assume "\<not> isl (category_search data)"
    then obtain res where res: "category_search data = Inr res"
      by (cases "category_search data") auto
    show False
    proof (cases res)
      case None
      with res category_search_None_iff [OF assms(1)] ne show False by simp
    next
      case (Some bs)
      with res assms(1) have "list_all2 (\<lambda>info b. bot_fields (py_getitem info) = Inr b) infos bs"
        by (auto simp: category_search_Some_iff)
      with assms(2) obtain b where "bot_fields (py_getitem info) = Inr b"
        by (auto simp: list_all2_conv_all_nth in_set_conv_nth)
      with f show False by simp
    qed
  qed
qed

lemma get_bot_id_needs_offline:
  assumes "py_getitem data ''result'' = Inr info"
    and "py_getitem info ''offline'' = Inr v" and "isl (py_int v)"
  shows "isl (get_bot_id repr_of c data)"
proof (rule ccontr)
  assume "\<not> isl (get_bot_id repr_of c data)"
  then obtain b where "get_bot_id repr_of c data = Inr b"
    by (cases "get_bot_id repr_of c data") auto
  from get_bot_id_InrD [OF this] assms(1)
  have "bot_with_photo_url repr_of c (py_getitem info) = Inr b" by simp
  then have "\<not> isl (bot_with_photo_url repr_of c (py_getitem info))" by simp
  with bot_fields_needs_offline [of "py_getitem info" v, OF assms(2,3)] show False
    by (simp add: bot_with_photo_url_isl)
qed

section \<open>The claims\<close>

text \<open>
  Claim C1. Every bot that \<^verbatim>\<open>get_bot_id\<close> or \<^verbatim>\<open>search\<close> returns has
  \<open>photo_url = photo_base_url + "/" + str(id) + ".jpg"\<close> when the \<^verbatim>\<open>photo\<close> of the object it
  was built from is truthy, and \<^verbatim>\<open>None\<close> otherwise.
\<close>

theorem photo_url_iff_photo_truthy:
  "(get_bot_id repr_of c data = Inr b \<longrightarrow>
      (\<exists>r. py_getitem data ''result'' = Inr r \<and> photo_url_rule repr_of c r b))
   \<and> (search repr_of c data = Inr (Some bs) \<longrightarrow>
      (\<exists>infos. py_getitem data ''result'' = Inr (JArr infos) \<and>
         list_all2 (photo_url_rule repr_of c) infos bs))"
proof (intro conjI impI)
  assume g: "get_bot_id repr_of c data = Inr b"
  then have m: "bot_with_photo_url repr_of c (result_field data) = Inr b"
    unfolding get_bot_id_def raise_bot_not_found_def
    by (elim and_then_InrE) (auto split: if_splits elim!: and_then_InrE)
  show "\<exists>r. py_getitem data ''result'' = Inr r \<and> photo_url_rule repr_of c r b"
  proof (cases "py_getitem data ''result''")
    case (Inl e)
    with m show ?thesis
      by (simp add: bot_with_photo_url_needs_id result_field_Inl)
  next
    case (Inr r)
    with m show ?thesis
      by (simp add: result_field_eq bot_with_photo_url_rule)
  qed
next
  assume "search repr_of c data = Inr (Some bs)"
  then obtain infos where r: "py_getitem data ''result'' = Inr (JArr infos)"
    and all: "list_all2 (\<lambda>info b. bot_with_photo_url repr_of c (py_getitem info) = Inr b) infos bs"
    unfolding search_Some_iff by blast
  from all have "list_all2 (photo_url_rule repr_of c) infos bs"
    by (rule list_all2_mono) (rule bot_with_photo_url_rule)
  with r show "\<exists>infos. py_getitem data ''result'' = Inr (JArr infos) \<and>
         list_all2 (photo_url_rule repr_of c) infos bs"
    by blast
qed

theorem photo_url_iff_photo_truthy_witness:
  "get_bot_id no_repr default_client (result_body (JObj vote_fields)) = Inr vote_bot
   \<and> photo_url_rule no_repr default_client (JObj vote_fields) vote_bot
   \<and> photo_url vote_bot = Some ''https://www.botsarchive.com/img/1.jpg''
   \<and> search no_repr default_client
        (result_body (JArr [JObj vote_fields, JObj (set_key ''photo'' (JBool False) vote_fields)])) =
      Inr (Some [vote_bot, vote_bot\<lparr>photo := JBool False, photo_url := None\<rparr>])
   \<and> list_all2 (photo_url_rule no_repr default_client)
        [JObj vote_fields, JObj (set_key ''photo'' (JBool False) vote_fields)]
        [vote_bot, vote_bot\<lparr>photo := JBool False, photo_url := None\<rparr>]"
proof -
  have g: "get_bot_id no_repr default_client (result_body (JObj vote_fields)) = Inr vote_bot"
    by code_simp
  have s: "search no_repr default_client
        (result_body (JArr [JObj vote_fields, JObj (set_key ''photo'' (JBool False) vote_fields)])) =
      Inr (Some [vote_bot, vote_bot\<lparr>photo := JBool False, photo_url := None\<rparr>])"
    by code_simp
  have u: "photo_url vote_bot = Some ''https://www.botsarchive.com/img/1.jpg''"
    by (simp add: vote_bot_def)
  from photo_url_iff_photo_truthy [of no_repr default_client "result_body (JObj vote_fields)"
      vote_bot] g
  have "photo_url_rule no_repr default_client (JObj vote_fields) vote_bot"
    by (simp add: result_body_def)
  moreover from photo_url_iff_photo_truthy [of no_repr default_client
      "result_body (JArr [JObj vote_fields, JObj (set_key ''photo'' (JBool False) vote_fields)])"
      _ "[vote_bot, vote_bot\<lparr>photo := JBool False, photo_url := None\<rparr>]"] s
  have "list_all2 (photo_url_rule no_repr default_client)
        [JObj vote_fields, JObj (set_key ''photo'' (JBool False) vote_fields)]
        [vote_bot, vote_bot\<lparr>photo := JBool False, photo_url := None\<rparr>]"
    by (simp add: result_body_def)
  ultimately show ?thesis using g s u by simp
qed

text \<open>
  Claim C2. When the decoded body has the key \<^verbatim>\<open>message\<close> with the value
  \<^verbatim>\<open>"bot not found"\<close>, \<^verbatim>\<open>get_bot_id\<close> and \<^verbatim>\<open>get_user_vote\<close> raise \<open>BotNotFound\<close> with
  that message, whatever else the body holds: neither the mapping nor the vote interpretation
  is reached. For every other object the check passes the body on to the mapping, respectively
  to the vote interpretation.
\<close>

theorem bot_not_found_sentinel:
  "get_bot_id repr_of c (JObj kvs) =
     (if map_of kvs ''message'' = Some (JStr ''bot not found'')
      then Inl (BotNotFound (JStr ''bot not found''))
      else bot_with_photo_url repr_of c (result_field (JObj kvs)))
   \<and> get_user_vote (JObj kvs) =
     (if map_of kvs ''message'' = Some (JStr ''bot not found'')
      then Inl (BotNotFound (JStr ''bot not found''))
      else vote_of (JObj kvs))"
  by (simp add: get_bot_id_def get_user_vote_def is_bot_not_found_JObj raise_bot_not_found_JObj)

theorem bot_not_found_sentinel_witness:
  "get_bot_id no_repr default_client (JObj [(''message'', JStr ''bot not found'')]) =
     Inl (BotNotFound (JStr ''bot not found''))
   \<and> get_user_vote (JObj [(''message'', JStr ''bot not found''), (''result'', JInt 5)]) =
     Inl (BotNotFound (JStr ''bot not found''))
   \<and> get_user_vote (JObj [(''message'', JStr ''ok''), (''result'', JInt 5)]) = Inr (VInt 5)"
proof -
  have v: "vote_of (JObj [(''message'', JStr ''ok''), (''result'', JInt 5)]) = Inr (VInt 5)"
    by code_simp
  show ?thesis
    using bot_not_found_sentinel [of no_repr default_client "[(''message'', JStr ''bot not found'')]"]
      bot_not_found_sentinel [of no_repr default_client
        "[(''message'', JStr ''bot not found''), (''result'', JInt 5)]"]
      bot_not_found_sentinel [of no_repr default_client
        "[(''message'', JStr ''ok''), (''result'', JInt 5)]"] v
    by simp
qed

text \<open>
  Claim C3. For a body without the sentinel, \<^verbatim>\<open>get_user_vote\<close> returns \<^verbatim>\<open>int\<close> of the
  value of \<^verbatim>\<open>result\<close> when that key is present (raising what \<^verbatim>\<open>int\<close> raises when the value
  is no integer literal), \<^verbatim>\<open>False\<close> when \<^verbatim>\<open>vote\<close> is present and \<^verbatim>\<open>result\<close> is not, and
  \<^verbatim>\<open>None\<close> when neither is; \<^verbatim>\<open>result\<close> wins over \<^verbatim>\<open>vote\<close>.
\<close>

theorem vote_interpretation:
  assumes "map_of kvs ''message'' \<noteq> Some (JStr ''bot not found'')"
  shows "get_user_vote (JObj kvs) =
     (case map_of kvs ''result'' of
        Some v \<Rightarrow> and_then (py_int v) (\<lambda>n. Inr (VInt n))
      | None \<Rightarrow> if map_of kvs ''vote'' \<noteq> None then Inr VFalse else Inr VNone)"
  using assms
  by (cases "map_of kvs ''result''")
     (simp_all add: get_user_vote_def is_bot_not_found_JObj vote_of_def)

theorem vote_interpretation_witness:
  "get_user_vote (JObj [(''result'', JStr ''5'')]) = Inr (VInt 5)
   \<and> get_user_vote (JObj [(''vote'', JStr ''x'')]) = Inr VFalse
   \<and> get_user_vote (JObj []) = Inr VNone
   \<and> get_user_vote (JObj [(''vote'', JStr ''x''), (''result'', JStr ''5'')]) = Inr (VInt 5)"
proof -
  have five: "py_int (JStr ''5'') = Inr 5" by code_simp
  have "get_user_vote (JObj [(''result'', JStr ''5'')]) = Inr (VInt 5)"
    using vote_interpretation [of "[(''result'', JStr ''5'')]"] five by simp
  moreover have "get_user_vote (JObj [(''vote'', JStr ''x'')]) = Inr VFalse"
    using vote_interpretation [of "[(''vote'', JStr ''x'')]"] by simp
  moreover have "get_user_vote (JObj []) = Inr VNone"
    using vote_interpretation [of "[]"] by simp
  moreover have "get_user_vote (JObj [(''vote'', JStr ''x''), (''result'', JStr ''5'')]) = Inr (VInt 5)"
    using vote_interpretation [of "[(''vote'', JStr ''x''), (''result'', JStr ''5'')]"] five by simp
  ultimately show ?thesis by simp
qed

text \<open>
  Claim C4, as stated, fails: \<^verbatim>\<open>lstrip("#")\<close> removes every leading \<^verbatim>\<open>#\<close> of a token, not
  exactly one. For the tags string \<^verbatim>\<open>"##a"\<close> the bot has the tag \<^verbatim>\<open>a\<close>, where removing one
  \<^verbatim>\<open>#\<close> would leave \<^verbatim>\<open>#a\<close>.
\<close>

theorem tags_strip_exactly_one_counterexample:
  "get_bot_id no_repr default_client
     (result_body (JObj (set_key ''tags'' (JStr ''##a'') vote_fields))) =
     Inr (vote_bot\<lparr>tags := [''a'']\<rparr>)
   \<and> map strip_one_hash (str_split ''##a'') = [''#a'']
   \<and> tags (vote_bot\<lparr>tags := [''a'']\<rparr>) \<noteq> map strip_one_hash (str_split ''##a'')"
proof -
  have g: "get_bot_id no_repr default_client
     (result_body (JObj (set_key ''tags'' (JStr ''##a'') vote_fields))) =
     Inr (vote_bot\<lparr>tags := [''a'']\<rparr>)"
    by code_simp
  have s: "map strip_one_hash (str_split ''##a'') = [''#a'']"
    by code_simp
  from g s show ?thesis by simp
qed

text \<open>
  Claim C4, amended. The mapper splits the tags string at whitespace and removes every leading
  \<^verbatim>\<open>#\<close> from each token, keeping the order of the tokens and every repetition: the tags of a
  bot returned by \<^verbatim>\<open>get_bot_id\<close> or \<^verbatim>\<open>search\<close> are \<open>map lstrip_hash (str_split s)\<close> for the
  tags string \<open>s\<close> of its object, no tag begins with \<^verbatim>\<open>#\<close>, and \<^verbatim>\<open>"#a #b #c"\<close> gives
  \<^verbatim>\<open>["a", "b", "c"]\<close>.
\<close>

theorem tags_split_and_strip_all_hashes:
  "(get_bot_id repr_of c data = Inr b \<longrightarrow>
      (\<exists>r. py_getitem data ''result'' = Inr r \<and> tags_rule r b) \<and>
      list_all no_leading_hash (tags b))
   \<and> (search repr_of c data = Inr (Some bs) \<longrightarrow>
      (\<exists>infos. py_getitem data ''result'' = Inr (JArr infos) \<and> list_all2 tags_rule infos bs) \<and>
      list_all (\<lambda>b. list_all no_leading_hash (tags b)) bs)
   \<and> map lstrip_hash (str_split ''#a #b #c'') = [''a'', ''b'', ''c'']"
proof (intro conjI impI)
  assume "get_bot_id repr_of c data = Inr b"
  from get_bot_id_InrD [OF this] obtain r where r: "py_getitem data ''result'' = Inr r"
    and m: "bot_with_photo_url repr_of c (py_getitem r) = Inr b" by blast
  from bot_with_photo_url_tags_rule [OF m] r
  show "\<exists>r. py_getitem data ''result'' = Inr r \<and> tags_rule r b"
    and "list_all no_leading_hash (tags b)" by blast+
next
  assume "search repr_of c data = Inr (Some bs)"
  then obtain infos where r: "py_getitem data ''result'' = Inr (JArr infos)"
    and all: "list_all2 (\<lambda>info b. bot_with_photo_url repr_of c (py_getitem info) = Inr b) infos bs"
    unfolding search_Some_iff by blast
  have one: "bot_with_photo_url repr_of c (py_getitem info) = Inr b \<Longrightarrow>
      tags_rule info b \<and> list_all no_leading_hash (tags b)" for info b
    by (rule bot_with_photo_url_tags_rule)
  from all have both: "list_all2 (\<lambda>info b. tags_rule info b \<and> list_all no_leading_hash (tags b)) infos bs"
    by (rule list_all2_mono) (rule one)
  then have "list_all2 tags_rule infos bs"
    by (rule list_all2_mono) simp
  with r show "\<exists>infos. py_getitem data ''result'' = Inr (JArr infos) \<and> list_all2 tags_rule infos bs"
    by blast
  from both show "list_all (\<lambda>b. list_all no_leading_hash (tags b)) bs"
    by (induction rule: list_all2_induct) simp_all
next
  show "map lstrip_hash (str_split ''#a #b #c'') = [''a'', ''b'', ''c'']"
    by code_simp
qed

theorem tags_split_and_strip_all_hashes_witness:
  "get_bot_id no_repr default_client
     (result_body (JObj (set_key ''tags'' (JStr ''##a #b  b #'') vote_fields))) =
     Inr (vote_bot\<lparr>tags := [''a'', ''b'', ''b'', '''']\<rparr>)
   \<and> tags_rule (JObj (set_key ''tags'' (JStr ''##a #b  b #'') vote_fields))
        (vote_bot\<lparr>tags := [''a'', ''b'', ''b'', '''']\<rparr>)
   \<and> list_all no_leading_hash (tags (vote_bot\<lparr>tags := [''a'', ''b'', ''b'', '''']\<rparr>))
   \<and> search no_repr default_client (result_body (JArr [JObj vote_fields])) = Inr (Some [vote_bot])
   \<and> list_all2 tags_rule [JObj vote_fields] [vote_bot]
   \<and> tags vote_bot = [''vote'', ''poll'', ''like'']"
proof -
  have g: "get_bot_id no_repr default_client
     (result_body (JObj (set_key ''tags'' (JStr ''##a #b  b #'') vote_fields))) =
     Inr (vote_bot\<lparr>tags := [''a'', ''b'', ''b'', '''']\<rparr>)"
    by code_simp
  have s: "search no_repr default_client (result_body (JArr [JObj vote_fields])) = Inr (Some [vote_bot])"
    by code_simp
  have t: "tags vote_bot = [''vote'', ''poll'', ''like'']"
    by (simp add: vote_bot_def)
  from tags_split_and_strip_all_hashes [of no_repr default_client
      "result_body (JObj (set_key ''tags'' (JStr ''##a #b  b #'') vote_fields))"
      "vote_bot\<lparr>tags := [''a'', ''b'', ''b'', '''']\<rparr>"] g
  have "tags_rule (JObj (set_key ''tags'' (JStr ''##a #b  b #'') vote_fields))
        (vote_bot\<lparr>tags := [''a'', ''b'', ''b'', '''']\<rparr>)
     \<and> list_all no_leading_hash (tags (vote_bot\<lparr>tags := [''a'', ''b'', ''b'', '''']\<rparr>))"
    by (simp add: result_body_def)
  moreover from tags_split_and_strip_all_hashes [of no_repr default_client
      "result_body (JArr [JObj vote_fields])" _ "[vote_bot]"] s
  have "list_all2 tags_rule [JObj vote_fields] [vote_bot]"
    by (simp add: result_body_def)
  ultimately show ?thesis using g s t by blast
qed

text \<open>
  Claim C5. When the value of \<^verbatim>\<open>result\<close> is falsy (an empty list, \<^verbatim>\<open>None\<close>, ...),
  \<^verbatim>\<open>search\<close> and \<^verbatim>\<open>category_search\<close> return \<^verbatim>\<open>None\<close>: no empty list and no error, and
  they return \<^verbatim>\<open>None\<close> in no other case. When it is a non-empty list they return the bots
  mapped from its elements, one for each element and in the order of the list.
\<close>

theorem falsy_result_is_none_else_bots_in_order:
  assumes "map_of kvs ''result'' = Some r"
  shows "(search repr_of c (JObj kvs) = Inr None \<longleftrightarrow> \<not> py_bool r)
     \<and> (category_search (JObj kvs) = Inr None \<longleftrightarrow> \<not> py_bool r)
     \<and> (r = JArr infos \<and> infos \<noteq> [] \<longrightarrow>
          (search repr_of c (JObj kvs) = Inr (Some bs) \<longleftrightarrow>
             list_all2 (\<lambda>info b. bot_with_photo_url repr_of c (py_getitem info) = Inr b) infos bs)
        \<and> (category_search (JObj kvs) = Inr (Some bs) \<longleftrightarrow>
             list_all2 (\<lambda>info b. bot_fields (py_getitem info) = Inr b) infos bs))"
proof -
  from assms have r: "py_getitem (JObj kvs) ''result'' = Inr r" by simp
  have "search repr_of c (JObj kvs) = Inr None \<longleftrightarrow> \<not> py_bool r"
    by (rule search_None_iff [OF r])
  moreover have "category_search (JObj kvs) = Inr None \<longleftrightarrow> \<not> py_bool r"
    by (rule category_search_None_iff [OF r])
  moreover have "r = JArr infos \<and> infos \<noteq> [] \<longrightarrow>
          (search repr_of c (JObj kvs) = Inr (Some bs) \<longleftrightarrow>
             list_all2 (\<lambda>info b. bot_with_photo_url repr_of c (py_getitem info) = Inr b) infos bs)
        \<and> (category_search (JObj kvs) = Inr (Some bs) \<longleftrightarrow>
             list_all2 (\<lambda>info b. bot_fields (py_getitem info) = Inr b) infos bs)"
    using r by (auto simp: search_Some_iff category_search_Some_iff)
  ultimately show ?thesis by blast
qed

theorem falsy_result_is_none_else_bots_in_order_witness:
  "search no_repr default_client (JObj [(''result'', JArr [])]) = Inr None
   \<and> category_search (JObj [(''result'', JArr [])]) = Inr None
   \<and> search no_repr default_client (JObj [(''result'', JNull)]) = Inr None
   \<and> category_search (JObj [(''result'', JNull)]) = Inr None
   \<and> search no_repr default_client
        (JObj [(''result'', JArr [JObj (set_key ''id'' (JInt 2) vote_fields), JObj vote_fields])]) =
      Inr (Some [vote_bot\<lparr>id_val := JInt 2,
                   photo_url := Some ''https://www.botsarchive.com/img/2.jpg''\<rparr>, vote_bot])
   \<and> category_search
        (JObj [(''result'', JArr [JObj (set_key ''id'' (JInt 2) vote_fields), JObj vote_fields])]) =
      Inr (Some [vote_bot\<lparr>id_val := JInt 2, photo_url := None\<rparr>, vote_bot\<lparr>photo_url := None\<rparr>])"
proof -
  have m1: "bot_with_photo_url no_repr default_client
      (py_getitem (JObj (set_key ''id'' (JInt 2) vote_fields))) =
      Inr (vote_bot\<lparr>id_val := JInt 2, photo_url := Some ''https://www.botsarchive.com/img/2.jpg''\<rparr>)"
    by code_simp
  have m2: "bot_with_photo_url no_repr default_client (py_getitem (JObj vote_fields)) = Inr vote_bot"
    by code_simp
  have f1: "bot_fields (py_getitem (JObj (set_key ''id'' (JInt 2) vote_fields))) =
      Inr (vote_bot\<lparr>id_val := JInt 2, photo_url := None\<rparr>)"
    by code_simp
  have f2: "bot_fields (py_getitem (JObj vote_fields)) = Inr (vote_bot\<lparr>photo_url := None\<rparr>)"
    by code_simp
  note a = falsy_result_is_none_else_bots_in_order [of "[(''result'', JArr [])]" "JArr []"
      no_repr default_client]
  note b = falsy_result_is_none_else_bots_in_order [of "[(''result'', JNull)]" JNull
      no_repr default_client]
  note d = falsy_result_is_none_else_bots_in_order
      [of "[(''result'', JArr [JObj (set_key ''id'' (JInt 2) vote_fields), JObj vote_fields])]"
        "JArr [JObj (set_key ''id'' (JInt 2) vote_fields), JObj vote_fields]"
        no_repr default_client
        "[JObj (set_key ''id'' (JInt 2) vote_fields), JObj vote_fields]"]
  from a have "search no_repr default_client (JObj [(''result'', JArr [])]) = Inr None
     \<and> category_search (JObj [(''result'', JArr [])]) = Inr None" by simp
  moreover from b have "search no_repr default_client (JObj [(''result'', JNull)]) = Inr None
     \<and> category_search (JObj [(''result'', JNull)]) = Inr None" by simp
  moreover from d [of "[vote_bot\<lparr>id_val := JInt 2,
                   photo_url := Some ''https://www.botsarchive.com/img/2.jpg''\<rparr>, vote_bot]"] m1 m2
  have "search no_repr default_client
        (JObj [(''result'', JArr [JObj (set_key ''id'' (JInt 2) vote_fields), JObj vote_fields])]) =
      Inr (Some [vote_bot\<lparr>id_val := JInt 2,
                   photo_url := Some ''https://www.botsarchive.com/img/2.jpg''\<rparr>, vote_bot])"
    by simp
  moreover from d [of "[vote_bot\<lparr>id_val := JInt 2, photo_url := None\<rparr>,
      vote_bot\<lparr>photo_url := None\<rparr>]"] f1 f2
  have "category_search
        (JObj [(''result'', JArr [JObj (set_key ''id'' (JInt 2) vote_fields), JObj vote_fields])]) =
      Inr (Some [vote_bot\<lparr>id_val := JInt 2, photo_url := None\<rparr>, vote_bot\<lparr>photo_url := None\<rparr>])"
    by simp
  ultimately show ?thesis by blast
qed

text \<open>
  Claim C6. Every bot that \<^verbatim>\<open>category_search\<close> returns has \<open>photo_url = None\<close>, also when
  the \<^verbatim>\<open>photo\<close> of its object is truthy, where \<^verbatim>\<open>search\<close> on the same body computes the URL.
\<close>

theorem category_search_omits_photo_url:
  assumes "category_search data = Inr (Some bs)"
  shows "\<exists>infos. py_getitem data ''result'' = Inr (JArr infos) \<and>
           list_all2 (\<lambda>info b. py_getitem info ''photo'' = Inr (photo b) \<and> photo_url b = None)
             infos bs"
proof -
  from assms obtain infos where r: "py_getitem data ''result'' = Inr (JArr infos)"
    and all: "list_all2 (\<lambda>info b. bot_fields (py_getitem info) = Inr b) infos bs"
    unfolding category_search_Some_iff by blast
  have one: "bot_fields (py_getitem info) = Inr b \<Longrightarrow>
      py_getitem info ''photo'' = Inr (photo b) \<and> photo_url b = None" for info b
    using bot_fields_InrD [of "py_getitem info" b] by blast
  from all have "list_all2 (\<lambda>info b. py_getitem info ''photo'' = Inr (photo b) \<and> photo_url b = None)
             infos bs"
    by (rule list_all2_mono) (rule one)
  with r show ?thesis by blast
qed

theorem category_search_omits_photo_url_witness:
  "category_search (result_body (JArr [JObj vote_fields])) = Inr (Some [vote_bot\<lparr>photo_url := None\<rparr>])
   \<and> py_bool (photo (vote_bot\<lparr>photo_url := None\<rparr>))
   \<and> list_all2 (\<lambda>info b. py_getitem info ''photo'' = Inr (photo b) \<and> photo_url b = None)
        [JObj vote_fields] [vote_bot\<lparr>photo_url := None\<rparr>]
   \<and> search no_repr default_client (result_body (JArr [JObj vote_fields])) = Inr (Some [vote_bot])
   \<and> photo_url vote_bot = Some ''https://www.botsarchive.com/img/1.jpg''"
proof -
  have cs: "category_search (result_body (JArr [JObj vote_fields])) =
      Inr (Some [vote_bot\<lparr>photo_url := None\<rparr>])"
    by code_simp
  have s: "search no_repr default_client (result_body (JArr [JObj vote_fields])) = Inr (Some [vote_bot])"
    by code_simp
  have p: "py_bool (photo (vote_bot\<lparr>photo_url := None\<rparr>))"
    by (simp add: vote_bot_def)
  have u: "photo_url vote_bot = Some ''https://www.botsarchive.com/img/1.jpg''"
    by (simp add: vote_bot_def)
  from category_search_omits_photo_url [OF cs]
  have "list_all2 (\<lambda>info b. py_getitem info ''photo'' = Inr (photo b) \<and> photo_url b = None)
        [JObj vote_fields] [vote_bot\<lparr>photo_url := None\<rparr>]"
    by (simp add: result_body_def)
  with cs s p u show ?thesis by blast
qed

text \<open>
  Claim C7. \<^verbatim>\<open>offline\<close> is \<^verbatim>\<open>bool(int(value))\<close>: true exactly when the integer read from the
  value is not zero, so the string \<^verbatim>\<open>"0"\<close> gives \<^verbatim>\<open>False\<close>; \<^verbatim>\<open>groups\<close> and \<^verbatim>\<open>inline\<close> are
  \<^verbatim>\<open>bool(value)\<close> with no integer in between. The body with \<^verbatim>\<open>id=1\<close>, \<^verbatim>\<open>photo=true\<close>,
  \<^verbatim>\<open>offline="0"\<close>, \<^verbatim>\<open>groups=0\<close>, \<^verbatim>\<open>inline=1\<close> gives a bot with \<^verbatim>\<open>offline=False\<close>,
  \<^verbatim>\<open>groups=False\<close>, \<^verbatim>\<open>inline=True\<close> and the photo URL of id 1.
\<close>

theorem offline_groups_inline_coercion:
  "(get_bot_id repr_of c data = Inr b \<longrightarrow>
      (\<exists>r v_offline n v_groups v_inline.
         py_getitem data ''result'' = Inr r \<and>
         py_getitem r ''offline'' = Inr v_offline \<and> py_int v_offline = Inr n \<and>
         offline b = (n \<noteq> 0) \<and>
         py_getitem r ''groups'' = Inr v_groups \<and> groups b = py_bool v_groups \<and>
         py_getitem r ''inline'' = Inr v_inline \<and> inline b = py_bool v_inline))
   \<and> py_int (JStr ''0'') = Inr 0
   \<and> (map_of vote_fields ''id'' = Some (JInt 1) \<and> map_of vote_fields ''photo'' = Some (JBool True) \<and>
      map_of vote_fields ''offline'' = Some (JStr ''0'') \<and>
      map_of vote_fields ''groups'' = Some (JInt 0) \<and> map_of vote_fields ''inline'' = Some (JInt 1) \<and>
      (\<exists>b0. get_bot_id no_repr c (result_body (JObj vote_fields)) = Inr b0 \<and>
         \<not> offline b0 \<and> \<not> groups b0 \<and> inline b0 \<and>
         photo_url b0 = Some (photo_base_url c @ ''/1.jpg'')))"
proof (intro conjI impI)
  assume "get_bot_id repr_of c data = Inr b"
  from get_bot_id_InrD [OF this] obtain r where r: "py_getitem data ''result'' = Inr r"
    and m: "bot_with_photo_url repr_of c (py_getitem r) = Inr b" by blast
  from bot_with_photo_url_InrD [OF m] obtain b0 where b0: "bot_fields (py_getitem r) = Inr b0"
    and b: "b = b0\<lparr>photo_url := photo_url b\<rparr>" by blast
  from arg_cong [OF b, of offline] arg_cong [OF b, of groups] arg_cong [OF b, of inline]
  have same: "offline b = offline b0" "groups b = groups b0" "inline b = inline b0" by simp_all
  from bot_fields_InrD [OF b0] same r
  show "\<exists>r v_offline n v_groups v_inline.
         py_getitem data ''result'' = Inr r \<and>
         py_getitem r ''offline'' = Inr v_offline \<and> py_int v_offline = Inr n \<and>
         offline b = (n \<noteq> 0) \<and>
         py_getitem r ''groups'' = Inr v_groups \<and> groups b = py_bool v_groups \<and>
         py_getitem r ''inline'' = Inr v_inline \<and> inline b = py_bool v_inline"
    by auto
next
  show "py_int (JStr ''0'') = Inr 0" by code_simp
next
  show "map_of vote_fields ''id'' = Some (JInt 1)" by code_simp
next
  show "map_of vote_fields ''photo'' = Some (JBool True)" by code_simp
next
  show "map_of vote_fields ''offline'' = Some (JStr ''0'')" by code_simp
next
  show "map_of vote_fields ''groups'' = Some (JInt 0)" by code_simp
next
  show "map_of vote_fields ''inline'' = Some (JInt 1)" by code_simp
next
  have "get_bot_id no_repr c (result_body (JObj vote_fields)) =
      Inr (vote_bot\<lparr>photo_url := Some (photo_base_url c @ ''/1.jpg'')\<rparr>)"
    by code_simp
  moreover have "\<not> offline vote_bot \<and> \<not> groups vote_bot \<and> inline vote_bot"
    by (simp add: vote_bot_def)
  ultimately show "\<exists>b0. get_bot_id no_repr c (result_body (JObj vote_fields)) = Inr b0 \<and>
         \<not> offline b0 \<and> \<not> groups b0 \<and> inline b0 \<and>
         photo_url b0 = Some (photo_base_url c @ ''/1.jpg'')"
    by simp
qed

theorem offline_groups_inline_coercion_witness:
  "get_bot_id no_repr default_client
     (result_body (JObj (set_key ''groups'' (JStr ''0'') vote_fields))) =
     Inr (vote_bot\<lparr>groups := True\<rparr>)
   \<and> (\<exists>r v_offline n v_groups v_inline.
         py_getitem (result_body (JObj (set_key ''groups'' (JStr ''0'') vote_fields))) ''result'' = Inr r \<and>
         py_getitem r ''offline'' = Inr v_offline \<and> py_int v_offline = Inr n \<and>
         offline (vote_bot\<lparr>groups := True\<rparr>) = (n \<noteq> 0) \<and>
         py_getitem r ''groups'' = Inr v_groups \<and>
         groups (vote_bot\<lparr>groups := True\<rparr>) = py_bool v_groups \<and>
         py_getitem r ''inline'' = Inr v_inline \<and>
         inline (vote_bot\<lparr>groups := True\<rparr>) = py_bool v_inline)
   \<and> \<not> offline (vote_bot\<lparr>groups := True\<rparr>) \<and> groups (vote_bot\<lparr>groups := True\<rparr>)"
proof -
  have g: "get_bot_id no_repr default_client
     (result_body (JObj (set_key ''groups'' (JStr ''0'') vote_fields))) =
     Inr (vote_bot\<lparr>groups := True\<rparr>)"
    by code_simp
  have o: "\<not> offline (vote_bot\<lparr>groups := True\<rparr>) \<and> groups (vote_bot\<lparr>groups := True\<rparr>)"
    by (simp add: vote_bot_def)
  from offline_groups_inline_coercion [of no_repr default_client
      "result_body (JObj (set_key ''groups'' (JStr ''0'') vote_fields))"
      "vote_bot\<lparr>groups := True\<rparr>"] g o
  show ?thesis by blast
qed

text \<open>
  Claim C8. \<^verbatim>\<open>category_search\<close> accepts a member of \<^verbatim>\<open>enums.Category\<close> or a string. A
  member sends its string code as the \<^verbatim>\<open>category\<close> query parameter, a string is sent
  verbatim, and so a member and the string equal to its code build the same request.
\<close>

theorem category_param_enum_or_string:
  "category_search_request c (Member m) =
     (api_base_url c @ ''/getCategory.php'', [(''category'', Category_value m)])
   \<and> category_search_request c (Raw s) =
     (api_base_url c @ ''/getCategory.php'', [(''category'', s)])
   \<and> category_search_request c (Raw (Category_value m)) = category_search_request c (Member m)"
  by (simp add: category_search_request_def category_param_def)

text \<open>
  Claim C9, as stated, fails: the code has no \<^verbatim>\<open>MappingError\<close> and checks no field's shape.
  A bot object whose \<^verbatim>\<open>name\<close> is the number 5, not a string, is mapped without any error to
  a bot with \<open>name = 5\<close>.
\<close>

theorem mapping_error_counterexample:
  "map_of (set_key ''name'' (JInt 5) vote_fields) ''name'' = Some (JInt 5)
   \<and> get_bot_id no_repr default_client
       (result_body (JObj (set_key ''name'' (JInt 5) vote_fields))) =
     Inr (vote_bot\<lparr>name := JInt 5\<rparr>)"
proof -
  have "map_of (set_key ''name'' (JInt 5) vote_fields) ''name'' = Some (JInt 5)"
    by code_simp
  moreover have "get_bot_id no_repr default_client
       (result_body (JObj (set_key ''name'' (JInt 5) vote_fields))) =
     Inr (vote_bot\<lparr>name := JInt 5\<rparr>)"
    by code_simp
  ultimately show ?thesis by simp
qed

text \<open>
  Claim C9, amended. The bot-mapping step on a decoded JSON object fails exactly when one of
  the seventeen keys (\<^verbatim>\<open>warn\<close> among them) is absent, or \<^verbatim>\<open>developer_id\<close> or \<^verbatim>\<open>offline\<close> is
  a value \<^verbatim>\<open>int\<close> rejects, or \<^verbatim>\<open>tags\<close> or \<^verbatim>\<open>languages\<close> is not a string. It then raises an
  error of the interpreter (\<^verbatim>\<open>KeyError\<close> for one of the keys, \<^verbatim>\<open>TypeError\<close>, \<^verbatim>\<open>ValueError\<close>,
  \<^verbatim>\<open>OverflowError\<close> or \<^verbatim>\<open>AttributeError\<close>) and builds no bot, so no field is defaulted. When
  it succeeds, the fields the code does not convert hold the values of the object unchanged,
  whatever their shape.
\<close>

theorem mapping_fails_on_absent_or_unconvertible_field:
  "(isl (bot_with_photo_url repr_of c (py_getitem (JObj kvs))) \<longleftrightarrow>
      (\<exists>k\<in>set bot_keys. map_of kvs k = None)
      \<or> (\<exists>v. map_of kvs ''developer_id'' = Some v \<and> isl (py_int v))
      \<or> (\<exists>v. map_of kvs ''offline'' = Some v \<and> isl (py_int v))
      \<or> (\<exists>v. map_of kvs ''tags'' = Some v \<and> (\<forall>s. v \<noteq> JStr s))
      \<or> (\<exists>v. map_of kvs ''languages'' = Some v \<and> (\<forall>s. v \<noteq> JStr s)))
   \<and> (bot_with_photo_url repr_of c (py_getitem (JObj kvs)) = Inl e \<longrightarrow> builtin_error e)
   \<and> (bot_with_photo_url repr_of c (py_getitem (JObj kvs)) = Inr b \<longrightarrow>
        map_of kvs ''id'' = Some (id_val b) \<and> map_of kvs ''name'' = Some (name b) \<and>
        map_of kvs ''username'' = Some (username b) \<and>
        map_of kvs ''description'' = Some (description b) \<and>
        map_of kvs ''warn'' = Some (warn b) \<and> map_of kvs ''msg'' = Some (msg b) \<and>
        map_of kvs ''category'' = Some (category b) \<and> map_of kvs ''stars'' = Some (stars b) \<and>
        map_of kvs ''votes'' = Some (votes b) \<and> map_of kvs ''vote'' = Some (vote b) \<and>
        map_of kvs ''photo'' = Some (photo b))"
proof (intro conjI impI)
  show "isl (bot_with_photo_url repr_of c (py_getitem (JObj kvs))) \<longleftrightarrow>
      (\<exists>k\<in>set bot_keys. map_of kvs k = None)
      \<or> (\<exists>v. map_of kvs ''developer_id'' = Some v \<and> isl (py_int v))
      \<or> (\<exists>v. map_of kvs ''offline'' = Some v \<and> isl (py_int v))
      \<or> (\<exists>v. map_of kvs ''tags'' = Some v \<and> (\<forall>s. v \<noteq> JStr s))
      \<or> (\<exists>v. map_of kvs ''languages'' = Some v \<and> (\<forall>s. v \<noteq> JStr s))"
    unfolding bot_with_photo_url_isl by (rule bot_fields_fails_iff)
next
  assume e: "bot_with_photo_url repr_of c (py_getitem (JObj kvs)) = Inl e"
  show "builtin_error e"
  proof (cases "bot_fields (py_getitem (JObj kvs))")
    case (Inl e')
    with e have "e' = e" by (simp add: bot_with_photo_url_def)
    with Inl show ?thesis by (simp add: bot_fields_Inl_builtin)
  next
    case (Inr b0)
    then have "\<not> isl (bot_with_photo_url repr_of c (py_getitem (JObj kvs)))"
      by (simp add: bot_with_photo_url_isl)
    with e show ?thesis by simp
  qed
next
  assume m: "bot_with_photo_url repr_of c (py_getitem (JObj kvs)) = Inr b"
  from bot_with_photo_url_InrD [OF m] obtain b0
    where b0: "bot_fields (py_getitem (JObj kvs)) = Inr b0"
      and b: "b = b0\<lparr>photo_url := photo_url b\<rparr>" by blast
  note d = bot_fields_InrD [OF b0, unfolded py_getitem_JObj_Inr]
  from arg_cong [OF b, of id_val] d show "map_of kvs ''id'' = Some (id_val b)" by auto
  from arg_cong [OF b, of name] d show "map_of kvs ''name'' = Some (name b)" by auto
  from arg_cong [OF b, of username] d show "map_of kvs ''username'' = Some (username b)" by auto
  from arg_cong [OF b, of description] d
  show "map_of kvs ''description'' = Some (description b)" by auto
  from arg_cong [OF b, of warn] d show "map_of kvs ''warn'' = Some (warn b)" by auto
  from arg_cong [OF b, of msg] d show "map_of kvs ''msg'' = Some (msg b)" by auto
  from arg_cong [OF b, of category] d show "map_of kvs ''category'' = Some (category b)" by auto
  from arg_cong [OF b, of stars] d show "map_of kvs ''stars'' = Some (stars b)" by auto
  from arg_cong [OF b, of votes] d show "map_of kvs ''votes'' = Some (votes b)" by auto
  from arg_cong [OF b, of vote] d show "map_of kvs ''vote'' = Some (vote b)" by auto
  from arg_cong [OF b, of photo] d show "map_of kvs ''photo'' = Some (photo b)" by auto
qed

theorem mapping_fails_on_absent_or_unconvertible_field_witness:
  "''warn'' \<in> set bot_keys \<and> map_of (drop_key ''warn'' vote_fields) ''warn'' = None
   \<and> bot_with_photo_url no_repr default_client (py_getitem (JObj (drop_key ''warn'' vote_fields))) =
       Inl (KeyError ''warn'')
   \<and> builtin_error (KeyError ''warn'')
   \<and> bot_with_photo_url no_repr default_client
       (py_getitem (JObj (set_key ''name'' (JInt 5) vote_fields))) = Inr (vote_bot\<lparr>name := JInt 5\<rparr>)
   \<and> map_of (set_key ''name'' (JInt 5) vote_fields) ''name'' = Some (name (vote_bot\<lparr>name := JInt 5\<rparr>))"
proof -
  have k: "''warn'' \<in> set bot_keys" by (simp add: bot_keys_def)
  have n: "map_of (drop_key ''warn'' vote_fields) ''warn'' = None" by code_simp
  have f: "bot_with_photo_url no_repr default_client
      (py_getitem (JObj (drop_key ''warn'' vote_fields))) = Inl (KeyError ''warn'')"
    by code_simp
  have s: "bot_with_photo_url no_repr default_client
       (py_getitem (JObj (set_key ''name'' (JInt 5) vote_fields))) = Inr (vote_bot\<lparr>name := JInt 5\<rparr>)"
    by code_simp
  note a = mapping_fails_on_absent_or_unconvertible_field
      [of no_repr default_client "drop_key ''warn'' vote_fields" "KeyError ''warn''"]
  note b = mapping_fails_on_absent_or_unconvertible_field
      [of no_repr default_client "set_key ''name'' (JInt 5) vote_fields" _ "vote_bot\<lparr>name := JInt 5\<rparr>"]
  from a f have "builtin_error (KeyError ''warn'')" by blast
  moreover from b s
  have "map_of (set_key ''name'' (JInt 5) vote_fields) ''name'' = Some (name (vote_bot\<lparr>name := JInt 5\<rparr>))"
    by blast
  ultimately show ?thesis using k n f s by blast
qed

text \<open>
  Claim C10, as stated, fails: \<^verbatim>\<open>int\<close> accepts more than integers and signed digit strings.
  With \<^verbatim>\<open>offline\<close> the JSON number 0.5, which is neither, \<^verbatim>\<open>int(0.5)\<close> is 0 and
  \<^verbatim>\<open>get_bot_id\<close> returns a bot with \<open>offline = False\<close>.
\<close>

theorem offline_outside_claimed_set_counterexample:
  "\<not> integer_or_signed_digits (JFloat (Finite (1 / 2)))
   \<and> map_of (set_key ''offline'' (JFloat (Finite (1 / 2))) vote_fields) ''offline'' =
       Some (JFloat (Finite (1 / 2)))
   \<and> get_bot_id no_repr default_client
       (result_body (JObj (set_key ''offline'' (JFloat (Finite (1 / 2))) vote_fields))) =
     Inr vote_bot
   \<and> \<not> offline vote_bot"
proof -
  have "\<not> integer_or_signed_digits (JFloat (Finite (1 / 2)))"
    by (simp add: integer_or_signed_digits_def)
  moreover have "map_of (set_key ''offline'' (JFloat (Finite (1 / 2))) vote_fields) ''offline'' =
       Some (JFloat (Finite (1 / 2)))"
    by code_simp
  moreover have "get_bot_id no_repr default_client
       (result_body (JObj (set_key ''offline'' (JFloat (Finite (1 / 2))) vote_fields))) =
     Inr vote_bot"
    by code_simp
  moreover have "\<not> offline vote_bot" by (simp add: vote_bot_def)
  ultimately show ?thesis by blast
qed

text \<open>
  Claim C10, amended. In every mapping path the \<^verbatim>\<open>offline\<close> coercion succeeds when the value
  is an integer or a string of decimal digits with an optional sign (and on a finite float,
  which \<^verbatim>\<open>int\<close> truncates); whenever \<^verbatim>\<open>int\<close> rejects the value, as it does the strings
  \<^verbatim>\<open>"true"\<close>, \<^verbatim>\<open>""\<close> and \<^verbatim>\<open>"0.5"\<close>, \<^verbatim>\<open>get_bot_id\<close>, \<^verbatim>\<open>search\<close> and \<^verbatim>\<open>category_search\<close> raise
  an error and return no bot.
\<close>

theorem offline_int_conversion_decides:
  "(integer_or_signed_digits v \<longrightarrow> (\<exists>n. py_int v = Inr n))
   \<and> (\<exists>n. py_int (JFloat (Finite q)) = Inr n)
   \<and> (py_getitem data ''result'' = Inr info \<and> py_getitem info ''offline'' = Inr v \<and>
        isl (py_int v) \<longrightarrow> isl (get_bot_id repr_of c data))
   \<and> (py_getitem data ''result'' = Inr (JArr infos) \<and> info \<in> set infos \<and>
        py_getitem info ''offline'' = Inr v \<and> isl (py_int v) \<longrightarrow>
        isl (search repr_of c data) \<and> isl (category_search data))
   \<and> py_int (JStr ''true'') = Inl ValueError
   \<and> py_int (JStr '''') = Inl ValueError
   \<and> py_int (JStr ''0.5'') = Inl ValueError"
proof (intro conjI impI)
  assume "integer_or_signed_digits v"
  then show "\<exists>n. py_int v = Inr n" by (rule integer_or_signed_digits_py_int)
next
  show "\<exists>n. py_int (JFloat (Finite q)) = Inr n" by simp
next
  assume "py_getitem data ''result'' = Inr info \<and> py_getitem info ''offline'' = Inr v \<and>
        isl (py_int v)"
  then show "isl (get_bot_id repr_of c data)"
    using get_bot_id_needs_offline by blast
next
  assume a: "py_getitem data ''result'' = Inr (JArr infos) \<and> info \<in> set infos \<and>
        py_getitem info ''offline'' = Inr v \<and> isl (py_int v)"
  then show "isl (search repr_of c data)"
    using search_needs_offline(1) by blast
  from a show "isl (category_search data)"
    using search_needs_offline(2) by blast
next
  show "py_int (JStr ''true'') = Inl ValueError" by code_simp
next
  show "py_int (JStr '''') = Inl ValueError" by code_simp
next
  show "py_int (JStr ''0.5'') = Inl ValueError" by code_simp
qed

theorem offline_int_conversion_decides_witness:
  "integer_or_signed_digits (JStr ''-1'') \<and> py_int (JStr ''-1'') = Inr (- 1)
   \<and> py_getitem (JObj (set_key ''offline'' (JStr ''true'') vote_fields)) ''offline'' = Inr (JStr ''true'')
   \<and> isl (py_int (JStr ''true''))
   \<and> get_bot_id no_repr default_client
       (result_body (JObj (set_key ''offline'' (JStr ''true'') vote_fields))) = Inl ValueError
   \<and> search no_repr default_client
       (result_body (JArr [JObj vote_fields, JObj (set_key ''offline'' (JStr ''true'') vote_fields)])) =
       Inl ValueError
   \<and> category_search
       (result_body (JArr [JObj vote_fields, JObj (set_key ''offline'' (JStr ''true'') vote_fields)])) =
       Inl ValueError"
proof -
  let ?bad = "JObj (set_key ''offline'' (JStr ''true'') vote_fields)"
  have d: "integer_or_signed_digits (JStr ''-1'')" by code_simp
  have m: "py_int (JStr ''-1'') = Inr (- 1)" by code_simp
  have o: "py_getitem ?bad ''offline'' = Inr (JStr ''true'')" by code_simp
  have t: "isl (py_int (JStr ''true''))" by code_simp
  have r1: "py_getitem (result_body ?bad) ''result'' = Inr ?bad"
    by (simp add: result_body_def)
  have r2: "py_getitem (result_body (JArr [JObj vote_fields, ?bad])) ''result'' =
      Inr (JArr [JObj vote_fields, ?bad])"
    by (simp add: result_body_def)
  have g: "get_bot_id no_repr default_client (result_body ?bad) = Inl ValueError" by code_simp
  have s: "search no_repr default_client (result_body (JArr [JObj vote_fields, ?bad])) =
      Inl ValueError" by code_simp
  have cs: "category_search (result_body (JArr [JObj vote_fields, ?bad])) = Inl ValueError"
    by code_simp
  note a = offline_int_conversion_decides [of "JStr ''-1''"]
  note b = offline_int_conversion_decides [of "JStr ''true''" _ "result_body ?bad" ?bad
      no_repr default_client]
  note e = offline_int_conversion_decides [of "JStr ''true''" _
      "result_body (JArr [JObj vote_fields, ?bad])" ?bad no_repr default_client
      "[JObj vote_fields, ?bad]"]
  from a d have "\<exists>n. py_int (JStr ''-1'') = Inr n" by blast
  moreover from b r1 o t have "isl (get_bot_id no_repr default_client (result_body ?bad))"
    by blast
  moreover from e r2 o t
  have "isl (search no_repr default_client (result_body (JArr [JObj vote_fields, ?bad])))
     \<and> isl (category_search (result_body (JArr [JObj vote_fields, ?bad])))"
    by simp
  ultimately show ?thesis using d m o t g s cs by blast
qed

end
